theory Spec2Isabelle
  imports Main "HOL-Library.Sublist"
begin

section \<open>Python exceptions as values\<close>

text \<open>
  Every exception class that the modelled code or the library calls it makes can raise is
  a constructor; the argument is the exception's message. A function that can raise
  returns \<open>error + 'a\<close>, or \<open>error option\<close> paired with the state it left behind.
\<close>

datatype error =
    FileNotFoundError string
  | FileExistsError string
  | NotADirectoryError string
  | IsADirectoryError string
  | RuntimeError string
  | ValueError string
  | TypeError string
  | AttributeError string
  | BoxKeyError string
  | BoxValueError string
  | YAMLError string
  | BadZipFile string
  | GdownError string
  | ParserError string
  | OperationalError string

section \<open>The file system seen through \<open>pathlib\<close>\<close>

text \<open>
  A \<open>Path\<close> is its list of components below the anchor (the working directory for a
  relative path); the empty list is the anchor itself, which is always a directory.
  \<open>Path.parent\<close> drops the last component, and the anchor is its own parent.
\<close>

type_synonym path = "string list"

definition parent :: "path \<Rightarrow> path" where
  "parent p = butlast p"

datatype node = File string | Dir "string \<Rightarrow> node option"

type_synonym fs = "string \<Rightarrow> node option"

definition ENOENT :: error where
  "ENOENT = FileNotFoundError ''[Errno 2] No such file or directory''"

definition ENOTDIR :: error where
  "ENOTDIR = NotADirectoryError ''[Errno 20] Not a directory''"

definition EEXIST :: error where
  "EEXIST = FileExistsError ''[Errno 17] File exists''"

definition EISDIR :: error where
  "EISDIR = IsADirectoryError ''[Errno 21] Is a directory''"

text \<open>\<open>os.stat\<close>: path resolution from the anchor, component by component.\<close>

fun os_stat :: "fs \<Rightarrow> path \<Rightarrow> error + node" where
  "os_stat m [] = Inr (Dir m)"
| "os_stat m (x # xs) =
     (case m x of
        None \<Rightarrow> Inl ENOENT
      | Some (File c) \<Rightarrow> (if xs = [] then Inr (File c) else Inl ENOTDIR)
      | Some (Dir m') \<Rightarrow> os_stat m' xs)"

text \<open>
  \<open>st_size\<close> of a regular file is the length of its content; for a directory the
  operating system reports the size of the directory entry table (4096 on the common
  Linux file systems).
\<close>

definition dir_size :: nat where
  "dir_size = 4096"

fun st_size :: "node \<Rightarrow> nat" where
  "st_size (File c) = length c"
| "st_size (Dir m) = dir_size"

text \<open>\<open>Path.exists\<close> and \<open>Path.is_dir\<close> answer \<open>False\<close> where \<open>os.stat\<close> fails.\<close>

definition Path_exists :: "fs \<Rightarrow> path \<Rightarrow> bool" where
  "Path_exists m p = (case os_stat m p of Inl e \<Rightarrow> False | Inr n \<Rightarrow> True)"

definition Path_is_dir :: "fs \<Rightarrow> path \<Rightarrow> bool" where
  "Path_is_dir m p = (case os_stat m p of Inr (Dir d) \<Rightarrow> True | _ \<Rightarrow> False)"

text \<open>
  \<open>os.mkdir\<close>: one directory, whose parent must be there already. The failures modelled
  are those that the content of the file system decides (a missing parent, a regular
  file on the way, a path that is there already); the others the operating system knows
  (a name that is too long, a missing permission, a full disk) are not, so nothing is
  said below about what a failing creation leaves behind.
\<close>

fun os_mkdir :: "fs \<Rightarrow> path \<Rightarrow> error + fs" where
  "os_mkdir m [] = Inl EEXIST"
| "os_mkdir m [x] =
     (case m x of
        None \<Rightarrow> Inr (m(x \<mapsto> Dir Map.empty))
      | Some n \<Rightarrow> Inl EEXIST)"
| "os_mkdir m (x # y # ys) =
     (case m x of
        None \<Rightarrow> Inl ENOENT
      | Some (File c) \<Rightarrow> Inl ENOTDIR
      | Some (Dir m') \<Rightarrow>
          (case os_mkdir m' (y # ys) of
             Inl e \<Rightarrow> Inl e
           | Inr m'' \<Rightarrow> Inr (m(x \<mapsto> Dir m''))))"

text \<open>
  \<open>Path.mkdir(parents, exist_ok)\<close> as \<open>pathlib\<close> implements it:
  \<^verbatim>\<open>
  try:
      os.mkdir(self, mode)
  except FileNotFoundError:
      if not parents or self.parent == self:
          raise
      self.parent.mkdir(parents=True, exist_ok=True)
      self.mkdir(mode, parents=False, exist_ok=exist_ok)
  except OSError:
      if not exist_ok or not self.is_dir():
          raise
  \<close>
\<close>

function mkdir :: "bool \<Rightarrow> bool \<Rightarrow> path \<Rightarrow> fs \<Rightarrow> error option \<times> fs" where
  "mkdir parents exist_ok p m =
     (case os_mkdir m p of
        Inr m' \<Rightarrow> (None, m')
      | Inl (FileNotFoundError msg) \<Rightarrow>
          (if \<not> parents \<or> parent p = p then (Some (FileNotFoundError msg), m)
           else (case mkdir True True (parent p) m of
                   (Some e, m') \<Rightarrow> (Some e, m')
                 | (None, m') \<Rightarrow> mkdir False exist_ok p m'))
      | Inl e \<Rightarrow>
          (if \<not> exist_ok \<or> \<not> Path_is_dir m p then (Some e, m) else (None, m)))"
  by pat_completeness auto
termination
  apply (relation "measure (\<lambda>(parents, exist_ok, p, m). 2 * length p + (if parents then 1 else 0))")
    apply (auto simp: parent_def)
  apply (case_tac p, auto)
  done

declare mkdir.simps [simp del]

text \<open>
  Opening a file for writing (\<open>open(path, "wb")\<close>) and writing \<open>data\<close>: the file is
  created or truncated; the directory that holds it must exist.
\<close>

fun os_write :: "fs \<Rightarrow> path \<Rightarrow> string \<Rightarrow> error + fs" where
  "os_write m [] data = Inl EISDIR"
| "os_write m [x] data =
     (case m x of
        Some (Dir d) \<Rightarrow> Inl EISDIR
      | _ \<Rightarrow> Inr (m(x \<mapsto> File data)))"
| "os_write m (x # y # ys) data =
     (case m x of
        None \<Rightarrow> Inl ENOENT
      | Some (File c) \<Rightarrow> Inl ENOTDIR
      | Some (Dir m') \<Rightarrow>
          (case os_write m' (y # ys) data of
             Inl e \<Rightarrow> Inl e
           | Inr m'' \<Rightarrow> Inr (m(x \<mapsto> Dir m''))))"

text \<open>Opening a file for reading (\<open>open(path, "rb")\<close>) and reading all of it.\<close>

definition os_read :: "fs \<Rightarrow> path \<Rightarrow> error + string" where
  "os_read m p =
     (case os_stat m p of
        Inl e \<Rightarrow> Inl e
      | Inr (Dir d) \<Rightarrow> Inl EISDIR
      | Inr (File c) \<Rightarrow> Inr c)"

text \<open>\<open>path.stat().st_size\<close>.\<close>

definition stat_st_size :: "fs \<Rightarrow> path \<Rightarrow> error + nat" where
  "stat_st_size m p = (case os_stat m p of Inl e \<Rightarrow> Inl e | Inr n \<Rightarrow> Inr (st_size n))"

text \<open>
  Python's \<open>a and b\<close> where evaluating \<open>b\<close> may raise: \<open>b\<close> is evaluated only when
  \<open>a\<close> is true.
\<close>

definition py_and :: "bool \<Rightarrow> error + bool \<Rightarrow> error + bool" where
  "py_and a b = (if a then b else Inr False)"

section \<open>\<open>scripts/data_acquisition.py\<close>\<close>

record DataAcquisitionConfig =
  file_id :: string
  download_file_path :: path
  extract_dir :: path

text \<open>
  The state the script acts on: the file system, and the calls made so far to the two
  external libraries (\<open>gdown.download(url, output)\<close>, the network fetch, and
  \<open>ZipFile(path).extractall(dir)\<close>). Console output is not part of the state.
\<close>

datatype call = GdownDownload string path | ZipExtractAll path path

record world =
  root :: fs
  calls :: "call list"

text \<open>
  \<open>gdown.download\<close> is a parameter of the model: given the URL, the output path and the
  file system, it leaves a file system behind and either returns or raises (with a
  message). Nothing is assumed about what it writes.
\<close>

type_synonym downloader = "string \<Rightarrow> path \<Rightarrow> fs \<Rightarrow> string option \<times> fs"

text \<open>Line 96: \<open>download_file_path.exists() and download_file_path.stat().st_size > 0\<close>.\<close>

definition already_downloaded :: "fs \<Rightarrow> path \<Rightarrow> error + bool" where
  "already_downloaded m p =
     py_and (Path_exists m p)
       (case stat_st_size m p of Inl e \<Rightarrow> Inl e | Inr s \<Rightarrow> Inr (0 < s))"

text \<open>
  Lines 104 and 128: \<open>not path.exists() and path.stat().st_size == 0\<close>, the guard of both
  explicit \<open>raise\<close> statements.
\<close>

definition missing_and_empty :: "fs \<Rightarrow> path \<Rightarrow> error + bool" where
  "missing_and_empty m p =
     py_and (\<not> Path_exists m p)
       (case stat_st_size m p of Inl e \<Rightarrow> Inl e | Inr s \<Rightarrow> Inr (s = 0))"

text \<open>
  \<open>DataAcquisition.download_zip\<close>. The \<open>try ... except Exception: raise\<close> around the body
  re-raises every exception as it is.
\<close>

definition download_zip :: "downloader \<Rightarrow> DataAcquisitionConfig \<Rightarrow> world \<Rightarrow> error option \<times> world" where
  "download_zip gdown_download config w =
     (let url = ''https://drive.google.com/uc?id='' @ file_id config;
          p = download_file_path config
      in case mkdir True True (parent p) (root w) of
           (Some e, m1) \<Rightarrow> (Some e, w\<lparr>root := m1\<rparr>)
         | (None, m1) \<Rightarrow>
             (case already_downloaded m1 p of
                Inl e \<Rightarrow> (Some e, w\<lparr>root := m1\<rparr>)
              | Inr True \<Rightarrow> (None, w\<lparr>root := m1\<rparr>)
              | Inr False \<Rightarrow>
                  (case gdown_download url p m1 of
                     (Some msg, m2) \<Rightarrow>
                       (Some (GdownError msg),
                        \<lparr>root = m2, calls = calls w @ [GdownDownload url p]\<rparr>)
                   | (None, m2) \<Rightarrow>
                       (case missing_and_empty m2 p of
                          Inl e \<Rightarrow>
                            (Some e, \<lparr>root = m2, calls = calls w @ [GdownDownload url p]\<rparr>)
                        | Inr True \<Rightarrow>
                            (Some (RuntimeError ''Download failed or produced an empty file''),
                             \<lparr>root = m2, calls = calls w @ [GdownDownload url p]\<rparr>)
                        | Inr False \<Rightarrow>
                            (None, \<lparr>root = m2, calls = calls w @ [GdownDownload url p]\<rparr>)))))"

text \<open>
  The ZIP format itself is outside the model: \<open>members\<close> reads the bytes of an archive
  as its list of members (relative path and content), or \<open>None\<close> when the bytes are not
  a ZIP archive. \<open>ZipFile.extractall\<close> creates the missing directories of each member
  (\<open>os.makedirs\<close>) and writes the member.
\<close>

type_synonym unzipper = "string \<Rightarrow> (path \<times> string) list option"

fun extractall :: "path \<Rightarrow> (path \<times> string) list \<Rightarrow> fs \<Rightarrow> error option \<times> fs" where
  "extractall dir [] m = (None, m)"
| "extractall dir ((name, data) # rest) m =
     (case (if Path_exists m (parent (dir @ name)) then (None, m)
            else mkdir True False (parent (dir @ name)) m) of
        (Some e, m1) \<Rightarrow> (Some e, m1)
      | (None, m1) \<Rightarrow>
          (case os_write m1 (dir @ name) data of
             Inl e \<Rightarrow> (Some e, m1)
           | Inr m2 \<Rightarrow> extractall dir rest m2))"

text \<open>\<open>DataAcquisition.extract_all\<close>.\<close>

definition extract_all :: "unzipper \<Rightarrow> DataAcquisitionConfig \<Rightarrow> world \<Rightarrow> error option \<times> world" where
  "extract_all members config w =
     (let zip_file_path = download_file_path config;
          dir = extract_dir config
      in case mkdir True True dir (root w) of
           (Some e, m1) \<Rightarrow> (Some e, w\<lparr>root := m1\<rparr>)
         | (None, m1) \<Rightarrow>
             (case missing_and_empty m1 zip_file_path of
                Inl e \<Rightarrow> (Some e, w\<lparr>root := m1\<rparr>)
              | Inr True \<Rightarrow>
                  (Some (FileNotFoundError ''Zip file is missing or empty. Cannot extract.''),
                   w\<lparr>root := m1\<rparr>)
              | Inr False \<Rightarrow>
                  (case os_read m1 zip_file_path of
                     Inl e \<Rightarrow>
                       (Some e, \<lparr>root = m1, calls = calls w @ [ZipExtractAll zip_file_path dir]\<rparr>)
                   | Inr bytes \<Rightarrow>
                       (case members bytes of
                          None \<Rightarrow>
                            (Some (BadZipFile ''File is not a zip file''),
                             \<lparr>root = m1, calls = calls w @ [ZipExtractAll zip_file_path dir]\<rparr>)
                        | Some ms \<Rightarrow>
                            (case extractall dir ms m1 of
                               (r, m2) \<Rightarrow>
                                 (r, \<lparr>root = m2,
                                      calls = calls w @ [ZipExtractAll zip_file_path dir]\<rparr>))))))"

text \<open>
  The file system right after \<open>gdown.download\<close> has returned, when \<open>download_zip\<close>
  gets that far (the directory was created, the archive was not there already, and the
  fetch did not raise); \<open>None\<close> on every other path through the function.
\<close>

definition after_fetch :: "downloader \<Rightarrow> DataAcquisitionConfig \<Rightarrow> world \<Rightarrow> fs option" where
  "after_fetch gdown_download config w =
     (let url = ''https://drive.google.com/uc?id='' @ file_id config;
          p = download_file_path config
      in case mkdir True True (parent p) (root w) of
           (Some e, m1) \<Rightarrow> None
         | (None, m1) \<Rightarrow>
             (case already_downloaded m1 p of
                Inr False \<Rightarrow>
                  (case gdown_download url p m1 of
                     (Some msg, m2) \<Rightarrow> None
                   | (None, m2) \<Rightarrow> Some m2)
              | _ \<Rightarrow> None))"

subsection \<open>Example inputs\<close>

text \<open>
  The configuration of the specification's end-to-end scenario (archive \<open>tmp/a.zip\<close>,
  extraction directory \<open>tmp/out\<close>), a file system that already holds the archive, an
  empty one, and two behaviours of \<open>gdown.download\<close>: it returns without leaving a
  file, it saves given bytes (none, for a zero-byte file) at the output path.
\<close>

definition config_example :: DataAcquisitionConfig where
  "config_example =
     \<lparr>file_id = ''X'', download_file_path = [''tmp'', ''a.zip''], extract_dir = [''tmp'', ''out'']\<rparr>"

definition fs_with_archive :: fs where
  "fs_with_archive = [''tmp'' \<mapsto> Dir [''a.zip'' \<mapsto> File ''PK'']]"

definition world_with_archive :: world where
  "world_with_archive = \<lparr>root = fs_with_archive, calls = []\<rparr>"

definition world_empty :: world where
  "world_empty = \<lparr>root = Map.empty, calls = []\<rparr>"

definition gdown_leaves_nothing :: downloader where
  "gdown_leaves_nothing url p m = (None, m)"

definition gdown_saves :: "string \<Rightarrow> downloader" where
  "gdown_saves data url p m =
     (case os_write m p data of Inl e \<Rightarrow> (Some ''cannot write output'', m) | Inr m' \<Rightarrow> (None, m'))"

text \<open>
  A configuration whose archive path is an ancestor of its extraction directory, and an
  unzipper that accepts nothing.
\<close>

definition config_nested :: DataAcquisitionConfig where
  "config_nested = \<lparr>file_id = ''X'', download_file_path = [''data''], extract_dir = [''data'', ''out'']\<rparr>"

definition no_members :: unzipper where
  "no_members bytes = None"

section \<open>\<open>core/logging_setup.py\<close>\<close>

text \<open>
  The part of Python's \<open>logging\<close> that \<open>get_logger\<close> uses. A logger has a level, a list
  of handlers and the \<open>propagate\<close> flag; \<open>logging.getLogger(name)\<close> keeps one logger
  object per name in the process-wide \<open>loggerDict\<close>, and a reference to a logger is its
  key there. The empty name denotes the root logger, whose name is \<open>root\<close>.
\<close>

definition NOTSET :: nat where "NOTSET = 0"
definition INFO :: nat where "INFO = 20"
definition WARNING :: nat where "WARNING = 30"

datatype file_mode = W | A

text \<open>
  The two handlers that \<open>get_logger\<close> builds: a \<open>FileHandler\<close> on a path and a
  \<open>StreamHandler\<close> on the console. Both are set to level \<open>INFO\<close> and share the
  formatter of line 70.
\<close>

datatype handler = FileHandler path | StreamHandler

record logger =
  level :: nat
  handlers :: "handler list"
  propagate :: bool

record process =
  fsys :: fs
  console :: "string list"
  loggerDict :: "string \<Rightarrow> logger option"

definition logger_key :: "string \<Rightarrow> string" where
  "logger_key name = (if name = [] then ''root'' else name)"

text \<open>The logger that \<open>logging.getLogger(name)\<close> returns: the registered one, or a new one.\<close>

definition getLogger :: "string \<Rightarrow> process \<Rightarrow> logger" where
  "getLogger name s =
     (case loggerDict s (logger_key name) of
        Some lg \<Rightarrow> lg
      | None \<Rightarrow> \<lparr>level = NOTSET, handlers = [], propagate = True\<rparr>)"

text \<open>
  \<open>FileHandler(path, mode)\<close> opens its file at once: mode \<open>w\<close> creates or truncates it,
  mode \<open>a\<close> creates it when it is missing and keeps it otherwise.
\<close>

definition open_log :: "fs \<Rightarrow> path \<Rightarrow> file_mode \<Rightarrow> error + fs" where
  "open_log m p mode =
     (case mode of
        W \<Rightarrow> os_write m p []
      | A \<Rightarrow>
          (case os_stat m p of
             Inr (File c) \<Rightarrow> Inr m
           | Inr (Dir d) \<Rightarrow> Inl EISDIR
           | Inl e \<Rightarrow> os_write m p []))"

text \<open>
  \<open>get_logger\<close>. The result is the reference to the logger, or the exception raised;
  a logger that \<open>getLogger\<close> created is registered even when a later line raises.
\<close>

definition get_logger :: "string \<Rightarrow> path \<Rightarrow> file_mode \<Rightarrow> process \<Rightarrow> (error + string) \<times> process" where
  "get_logger name log_file_path mode s =
     (case mkdir True True (parent log_file_path) (fsys s) of
        (Some e, m1) \<Rightarrow> (Inl e, s\<lparr>fsys := m1\<rparr>)
      | (None, m1) \<Rightarrow>
          (let k = logger_key name;
               lg = (getLogger name s)\<lparr>level := INFO\<rparr>
           in if handlers lg = [] then
                (case open_log m1 log_file_path mode of
                   Inl e \<Rightarrow> (Inl e, s\<lparr>fsys := m1, loggerDict := (loggerDict s)(k \<mapsto> lg)\<rparr>)
                 | Inr m2 \<Rightarrow>
                     (Inr k,
                      s\<lparr>fsys := m2,
                        loggerDict := (loggerDict s)(k \<mapsto>
                          lg\<lparr>handlers := [FileHandler log_file_path, StreamHandler],
                             propagate := False\<rparr>)\<rparr>))
              else (Inr k, s\<lparr>fsys := m1, loggerDict := (loggerDict s)(k \<mapsto> lg\<lparr>propagate := False\<rparr>)\<rparr>)))"

text \<open>
  The line that the formatter \<open>%(asctime)s - %(name)s - %(module)s - %(levelname)s -
  %(message)s\<close> makes of a record.
\<close>

definition format_record :: "string \<Rightarrow> string \<Rightarrow> string \<Rightarrow> string \<Rightarrow> string \<Rightarrow> string" where
  "format_record asctime name module levelname message =
     asctime @ '' - '' @ name @ '' - '' @ module @ '' - '' @ levelname @ '' - '' @ message"

text \<open>
  A handler emits a line: the file handler writes it, with the terminator, at the end of
  the file its stream is open on (nothing shows in the file system when that file is
  gone); the stream handler writes it to the console. The file is taken to have this
  one writer: where several streams are open on one file, each writes at its own
  offset, which the model does not follow.
\<close>

fun emit :: "string \<Rightarrow> process \<Rightarrow> handler \<Rightarrow> process" where
  "emit line s (FileHandler p) =
     (case os_stat (fsys s) p of
        Inr (File c) \<Rightarrow>
          (case os_write (fsys s) p (c @ line @ [CHR 0x0A]) of
             Inr m \<Rightarrow> s\<lparr>fsys := m\<rparr>
           | Inl e \<Rightarrow> s)
      | _ \<Rightarrow> s)"
| "emit line s StreamHandler = s\<lparr>console := console s @ [line]\<rparr>"

text \<open>
  \<open>logger.info(message)\<close> on the logger registered under \<open>k\<close>: when the logger's level
  lets \<open>INFO\<close> through, every handler of the logger emits the formatted record; a logger
  that propagates hands the record to the handlers of the root logger as well.
\<close>

definition info :: "string \<Rightarrow> string \<Rightarrow> string \<Rightarrow> string \<Rightarrow> process \<Rightarrow> process" where
  "info k asctime module message s =
     (case loggerDict s k of
        None \<Rightarrow> s
      | Some lg \<Rightarrow>
          (let effective = (if level lg = NOTSET
                            then (case loggerDict s ''root'' of Some r \<Rightarrow> level r | None \<Rightarrow> WARNING)
                            else level lg);
               line = format_record asctime k module ''INFO'' message
           in if effective \<le> INFO then
                foldl (emit line) s
                  (handlers lg @
                   (if propagate lg \<and> k \<noteq> ''root''
                    then (case loggerDict s ''root'' of Some r \<Rightarrow> handlers r | None \<Rightarrow> [])
                    else []))
              else s))"

text \<open>
  What the process does with one logger name after its first call of \<open>get_logger\<close>:
  further calls of \<open>get_logger\<close> with that name, each with its own path and mode (the
  process goes on whether a call returns or raises), and records logged through the
  logger. \<open>logged\<close> lists the lines of the records, in order.
\<close>

datatype action = Call path file_mode | Log string string string

fun run_actions :: "string \<Rightarrow> action list \<Rightarrow> process \<Rightarrow> process" where
  "run_actions name [] s = s"
| "run_actions name (Call p mode # rest) s =
     run_actions name rest (snd (get_logger name p mode s))"
| "run_actions name (Log asctime module message # rest) s =
     run_actions name rest (info (logger_key name) asctime module message s)"

fun logged :: "string \<Rightarrow> action list \<Rightarrow> string list" where
  "logged k [] = []"
| "logged k (Call p mode # rest) = logged k rest"
| "logged k (Log asctime module message # rest) =
     format_record asctime k module ''INFO'' message # logged k rest"

text \<open>A logger as \<open>get_logger\<close> leaves it: level \<open>INFO\<close>, some handler, no propagation.\<close>

definition configured :: "string \<Rightarrow> process \<Rightarrow> bool" where
  "configured name s =
     (case loggerDict s (logger_key name) of
        None \<Rightarrow> False
      | Some lg \<Rightarrow> level lg = INFO \<and> handlers lg \<noteq> [] \<and> \<not> propagate lg)"

definition process_fresh :: process where
  "process_fresh = \<lparr>fsys = Map.empty, console = [], loggerDict = Map.empty\<rparr>"

subsection \<open>Example inputs\<close>

text \<open>
  Three log file paths (the second lies under the first, a regular file once the first
  call has opened it) and the process as the first call of \<open>get_logger\<close> leaves it.
\<close>

definition log_first :: path where "log_first = [''logs'', ''data_ingestion.log'']"
definition log_under_file :: path where "log_under_file = [''logs'', ''data_ingestion.log'', ''x.log'']"
definition log_other :: path where "log_other = [''tmp'', ''other.log'']"

definition process_logging :: process where
  "process_logging =
     \<lparr>fsys = [''logs'' \<mapsto> Dir [''data_ingestion.log'' \<mapsto> File []]],
      console = [],
      loggerDict = [''Data Ingestion'' \<mapsto>
        \<lparr>level = 20, handlers = [FileHandler [''logs'', ''data_ingestion.log''], StreamHandler],
         propagate = False\<rparr>]\<rparr>"

text \<open>
  What the process does after the first call: it logs a record, calls \<open>get_logger\<close>
  again with another path, then with the path under the log file, and logs a second
  record.
\<close>

definition actions_example :: "action list" where
  "actions_example =
     [Log ''2026-01-01 00:00:00'' ''data_ingestion'' ''Reading data from DB...'',
      Call log_other A,
      Call log_under_file W,
      Log ''2026-01-01 00:00:01'' ''data_ingestion'' ''Data loaded'']"

section \<open>\<open>scripts/ingest_db.py\<close>\<close>

text \<open>
  A data frame is its header and its rows. The database server is reachable or not and
  holds one data frame per table name. \<open>df.to_sql(name, if_exists="replace",
  index=False)\<close> drops the table and writes the rows of the frame in its place.
\<close>

record dataframe =
  columns :: "string list"
  rows :: "string list list"

record database =
  reachable :: bool
  tables :: "string \<Rightarrow> dataframe option"

definition to_sql_replace :: "string \<Rightarrow> dataframe \<Rightarrow> database \<Rightarrow> error option \<times> database" where
  "to_sql_replace name df db =
     (if reachable db then (None, db\<lparr>tables := (tables db)(name \<mapsto> df)\<rparr>)
      else (Some (OperationalError ''Can't connect to MySQL server''), db))"

text \<open>\<open>str.endswith\<close>.\<close>

definition endswith :: "string \<Rightarrow> string \<Rightarrow> bool" where
  "endswith s suf \<longleftrightarrow>
     length suf \<le> length s \<and> drop (length s - length suf) s = suf"

text \<open>The part of the configuration that \<open>ingest_db\<close> reads: \<open>config.database\<close>.\<close>

record IngestionConfig =
  table_name :: string
  data_dir :: path

text \<open>
  The loop of \<open>ingest_db\<close> over the names that \<open>os.listdir\<close> returned, in that order.
  \<open>pd.read_csv\<close> is a parameter: the frame it reads from a path, or the exception it
  raises.
\<close>

fun ingest_files ::
  "(path \<Rightarrow> error + dataframe) \<Rightarrow> IngestionConfig \<Rightarrow> string list \<Rightarrow> database \<Rightarrow> error option \<times> database"
where
  "ingest_files read_csv config [] db = (None, db)"
| "ingest_files read_csv config (file # rest) db =
     (if endswith file ''.csv'' then
        (case read_csv (data_dir config @ [file]) of
           Inl e \<Rightarrow> (Some e, db)
         | Inr df \<Rightarrow>
             (case to_sql_replace (table_name config) df db of
                (Some e, db') \<Rightarrow> (Some e, db')
              | (None, db') \<Rightarrow> ingest_files read_csv config rest db'))
      else ingest_files read_csv config rest db)"

text \<open>
  \<open>ingest_db\<close>. \<open>os.listdir\<close> is a parameter too: the names in the directory, in the
  order the operating system gives them, or the exception raised.
\<close>

definition ingest_db ::
  "(path \<Rightarrow> error + string list) \<Rightarrow> (path \<Rightarrow> error + dataframe) \<Rightarrow> IngestionConfig \<Rightarrow> database
     \<Rightarrow> error option \<times> database"
where
  "ingest_db listdir read_csv config db =
     (case listdir (data_dir config) of
        Inl e \<Rightarrow> (Some e, db)
      | Inr files \<Rightarrow> ingest_files read_csv config files db)"

subsection \<open>Example inputs\<close>

text \<open>
  A directory \<open>data\<close> that lists \<open>a.csv\<close>, \<open>notes.txt\<close> and \<open>b.csv\<close> in that order, the two
  frames read from the CSV files, and a reachable server without tables.
\<close>

definition frame_a :: dataframe where
  "frame_a = \<lparr>columns = [''price''], rows = [[''100''], [''200'']]\<rparr>"

definition frame_b :: dataframe where
  "frame_b = \<lparr>columns = [''price''], rows = [[''300'']]\<rparr>"

definition listdir_ab :: "path \<Rightarrow> error + string list" where
  "listdir_ab d = Inr [''a.csv'', ''notes.txt'', ''b.csv'']"

definition read_csv_ab :: "path \<Rightarrow> error + dataframe" where
  "read_csv_ab p =
     (if p = [''data'', ''a.csv''] then Inr frame_a
      else if p = [''data'', ''b.csv''] then Inr frame_b
      else Inl (ParserError ''Error tokenizing data''))"

definition config_ingest :: IngestionConfig where
  "config_ingest = \<lparr>table_name = ''flight_prices'', data_dir = [''data'']\<rparr>"

definition database_empty :: database where
  "database_empty = \<lparr>reachable = True, tables = Map.empty\<rparr>"

section \<open>\<open>core/exception.py\<close>\<close>

text \<open>Decimal digits of a natural number, as the f-string prints a line number.\<close>

definition digit :: "nat \<Rightarrow> char" where
  "digit d = ''0123456789'' ! d"

fun str_nat :: "nat \<Rightarrow> string" where
  "str_nat n =
     (if n < 10 then [digit n]
      else str_nat (n div 10) @ [digit (n mod 10)])"

declare str_nat.simps [simp del]

text \<open>
  What \<open>error_detail.exc_info()\<close> gives \<open>error_message_details\<close>: the traceback of the
  exception being handled, of which the function reads the file name of the code and
  the line number; \<open>None\<close> when no exception is being handled.
\<close>

record traceback =
  co_filename :: string
  tb_lineno :: nat

text \<open>
  \<open>error_message_details\<close>. The cause is of any type; \<open>str\<close> is Python's \<open>str()\<close> on it.
  The second component of the state is the list of messages handed to the root logger by
  \<open>logging.error\<close>. With no traceback, \<open>exc_tb.tb_frame\<close> raises \<open>AttributeError\<close>.
\<close>

definition error_message_details ::
  "('e \<Rightarrow> string) \<Rightarrow> 'e \<Rightarrow> traceback option \<Rightarrow> string list \<Rightarrow> (error + string) \<times> string list"
where
  "error_message_details str error exc_tb root_log =
     (case exc_tb of
        None \<Rightarrow> (Inl (AttributeError ''NoneType object has no attribute tb_frame''), root_log)
      | Some tb \<Rightarrow>
          (let file_name = co_filename tb;
               line_number = tb_lineno tb;
               error_message =
                 ''Error occurred in python script - '' @ file_name @ '', ''
                 @ ''line number - '' @ str_nat line_number @ '', ''
                 @ ''error message - '' @ str error
           in (Inr error_message, root_log @ [error_message])))"

text \<open>
  \<open>CustomException\<close>: \<open>args\<close> is what \<open>Exception.__init__\<close> keeps (the cause as it was
  given), \<open>error_message\<close> the attribute set by \<open>__init__\<close>.
\<close>

record 'e CustomException =
  args :: 'e
  error_message :: string

definition CustomException_init ::
  "('e \<Rightarrow> string) \<Rightarrow> 'e \<Rightarrow> traceback option \<Rightarrow> string list
     \<Rightarrow> (error + 'e CustomException) \<times> string list"
where
  "CustomException_init str cause exc_tb root_log =
     (case error_message_details str cause exc_tb root_log of
        (Inl e, root_log') \<Rightarrow> (Inl e, root_log')
      | (Inr message, root_log') \<Rightarrow> (Inr \<lparr>args = cause, error_message = message\<rparr>, root_log'))"

definition CustomException_str :: "'e CustomException \<Rightarrow> string" where
  "CustomException_str self = error_message self"

section \<open>\<open>utils/data_io.py\<close> and \<open>config/configuration.py\<close>\<close>

text \<open>
  What \<open>yaml.safe_load\<close> returns: \<open>None\<close>, a scalar, a list or a dict (an association
  list, looked up from the front). Parsing itself is a parameter of \<open>load_yaml\<close>: from
  the text of the file to the document, or to the message of the \<open>yaml.YAMLError\<close>
  raised on text that is not YAML.
\<close>

datatype yaml =
    YNull
  | YBool bool
  | YInt int
  | YStr string
  | YSeq "yaml list"
  | YMap "(yaml \<times> yaml) list"

type_synonym parser = "string \<Rightarrow> string + yaml"

text \<open>
  \<open>ConfigBox(content)\<close>, the constructor of \<open>python-box\<close>: a string is refused with
  \<open>BoxValueError\<close>, a mapping is taken, any other iterable is read as a sequence of
  key/value pairs (Python's unpacking \<open>for k, v in ...\<close>, which raises \<open>ValueError\<close> or
  \<open>TypeError\<close> on an element that is not a pair), and everything else is refused with
  \<open>BoxValueError\<close>.
\<close>

fun unpack2 :: "yaml \<Rightarrow> error + yaml \<times> yaml" where
  "unpack2 (YSeq [k, v]) = Inr (k, v)"
| "unpack2 (YSeq xs) = Inl (ValueError ''wrong number of values to unpack (expected 2)'')"
| "unpack2 (YStr [a, b]) = Inr (YStr [a], YStr [b])"
| "unpack2 (YStr s) = Inl (ValueError ''wrong number of values to unpack (expected 2)'')"
| "unpack2 (YMap [(k1, v1), (k2, v2)]) = Inr (k1, k2)"
| "unpack2 (YMap kvs) = Inl (ValueError ''wrong number of values to unpack (expected 2)'')"
| "unpack2 y = Inl (TypeError ''cannot unpack non-iterable object'')"

fun hashable :: "yaml \<Rightarrow> bool" where
  "hashable (YSeq xs) = False"
| "hashable (YMap kvs) = False"
| "hashable y = True"

fun box_pairs :: "yaml list \<Rightarrow> (yaml \<times> yaml) list \<Rightarrow> error + (yaml \<times> yaml) list" where
  "box_pairs [] acc = Inr acc"
| "box_pairs (x # xs) acc =
     (case unpack2 x of
        Inl e \<Rightarrow> Inl e
      | Inr (k, v) \<Rightarrow>
          (if hashable k then box_pairs xs ((k, v) # acc)
           else Inl (TypeError ''unhashable type'')))"

fun ConfigBox :: "yaml \<Rightarrow> error + yaml" where
  "ConfigBox (YStr s) = Inl (BoxValueError ''Cannot extrapolate Box from string'')"
| "ConfigBox (YMap kvs) = Inr (YMap kvs)"
| "ConfigBox (YSeq xs) =
     (case box_pairs xs [] of Inl e \<Rightarrow> Inl e | Inr kvs \<Rightarrow> Inr (YMap kvs))"
| "ConfigBox y = Inl (BoxValueError ''First argument must be mapping or iterable'')"

text \<open>\<open>str(path)\<close>: the components joined by the separator.\<close>

fun str_path :: "path \<Rightarrow> string" where
  "str_path [] = ''.''"
| "str_path [x] = x"
| "str_path (x # y # ys) = x @ ''/'' @ str_path (y # ys)"

text \<open>
  \<open>load_yaml\<close>. Inside the \<open>try\<close>: \<open>open\<close>, \<open>yaml.safe_load\<close>, the test for \<open>None\<close> and
  \<open>ConfigBox\<close>. The first handler turns a \<open>BoxValueError\<close> into a \<open>ValueError\<close>; the
  second, \<open>except Exception as e: raise e\<close>, re-raises everything else as it is.
\<close>

definition load_yaml :: "parser \<Rightarrow> fs \<Rightarrow> path \<Rightarrow> error + yaml" where
  "load_yaml safe_load m path_to_yaml =
     (case (case os_read m path_to_yaml of
              Inl e \<Rightarrow> Inl e
            | Inr text \<Rightarrow>
                (case safe_load text of
                   Inl msg \<Rightarrow> Inl (YAMLError msg)
                 | Inr content \<Rightarrow>
                     (if content = YNull
                      then Inl (ValueError (''YAML file at '' @ str_path path_to_yaml @ '' is empty''))
                      else ConfigBox content))) of
        Inl (BoxValueError msg) \<Rightarrow>
          Inl (ValueError ''YAML file is invalid or contains unsupported values'')
      | Inl e \<Rightarrow> Inl e
      | Inr box \<Rightarrow> Inr box)"

text \<open>
  Attribute access on what \<open>load_yaml\<close> returned. A box answers with the value of the
  key of that name. When it has no such key, \<open>python-box\<close> still answers for a key
  whose converted form is the name (the key \<open>data-ingestion\<close> under the attribute
  \<open>data_ingestion\<close>); that conversion is a parameter of the model: the value the box
  finds for the name among the other keys, or \<open>None\<close>, in which case the access raises
  \<open>BoxKeyError\<close>. A value that is not a box has no such attribute.
\<close>

type_synonym conversion = "(yaml \<times> yaml) list \<Rightarrow> string \<Rightarrow> yaml option"

fun getattr :: "conversion \<Rightarrow> yaml \<Rightarrow> string \<Rightarrow> error + yaml" where
  "getattr near (YMap kvs) name =
     (case map_of kvs (YStr name) of
        Some v \<Rightarrow> Inr v
      | None \<Rightarrow>
          (case near kvs name of
             Some v \<Rightarrow> Inr v
           | None \<Rightarrow> Inl (BoxKeyError (''ConfigBox object has no attribute '' @ name))))"
| "getattr near y name = Inl (AttributeError (''object has no attribute '' @ name))"

text \<open>
  \<open>Path(value)\<close>: a string is split at the separators (empty components and \<open>.\<close> are
  dropped); anything else is a \<open>TypeError\<close>. A component \<open>..\<close> is kept as it is written,
  as \<open>pathlib\<close> does; the file system of this model does not resolve it, so what is
  said below about a path that is created is said of paths without \<open>..\<close>.
\<close>

fun split_sep :: "string \<Rightarrow> string \<Rightarrow> string list" where
  "split_sep acc [] = [rev acc]"
| "split_sep acc (c # cs) =
     (if c = CHR ''/'' then rev acc # split_sep [] cs else split_sep (c # acc) cs)"

fun Path :: "yaml \<Rightarrow> error + path" where
  "Path (YStr s) = Inr (filter (\<lambda>c. c \<noteq> [] \<and> c \<noteq> ''.'') (split_sep [] s))"
| "Path y = Inl (TypeError ''expected str, bytes or os.PathLike object'')"

text \<open>\<open>create_directories\<close>.\<close>

fun create_directories :: "path list \<Rightarrow> fs \<Rightarrow> error option \<times> fs" where
  "create_directories [] m = (None, m)"
| "create_directories (dir_path # rest) m =
     (case mkdir True True dir_path m of
        (Some e, m') \<Rightarrow> (Some e, m')
      | (None, m') \<Rightarrow> create_directories rest m')"

text \<open>\<open>ConfigurationManager.__init__\<close>, acting on the world of the acquisition script.\<close>

record ConfigurationManager =
  self_config_path :: path
  self_config :: yaml

definition ConfigurationManager_init ::
  "conversion \<Rightarrow> parser \<Rightarrow> path \<Rightarrow> world \<Rightarrow> (error + ConfigurationManager) \<times> world"
where
  "ConfigurationManager_init near safe_load path w =
     (case load_yaml safe_load (root w) path of
        Inl e \<Rightarrow> (Inl e, w)
      | Inr cfg \<Rightarrow>
          (case getattr near cfg ''data_ingestion'' of
             Inl e \<Rightarrow> (Inl e, w)
           | Inr data_ingestion \<Rightarrow>
               (case getattr near data_ingestion ''raw_data_path'' of
                  Inl e \<Rightarrow> (Inl e, w)
                | Inr raw_data_path \<Rightarrow>
                    (case Path raw_data_path of
                       Inl e \<Rightarrow> (Inl e, w)
                     | Inr p \<Rightarrow>
                         (case create_directories [p] (root w) of
                            (Some e, m) \<Rightarrow> (Inl e, w\<lparr>root := m\<rparr>)
                          | (None, m) \<Rightarrow>
                              (Inr \<lparr>self_config_path = path, self_config = cfg\<rparr>, w\<lparr>root := m\<rparr>))))))"

text \<open>Dotted access \<open>config.a.b\<close>: one attribute after the other.\<close>

fun getattr_path :: "conversion \<Rightarrow> yaml \<Rightarrow> string list \<Rightarrow> error + yaml" where
  "getattr_path near y [] = Inr y"
| "getattr_path near y (name # names) =
     (case getattr near y name of Inl e \<Rightarrow> Inl e | Inr v \<Rightarrow> getattr_path near v names)"

subsection \<open>Example inputs\<close>

text \<open>
  A training configuration with \<open>data_ingestion.raw_data_path\<close> and no \<open>database\<close>
  section, a file that is not YAML (a flow sequence that is never closed), and what
  \<open>yaml.safe_load\<close> makes of the two texts.
\<close>

definition doc_training :: yaml where
  "doc_training = YMap [(YStr ''data_ingestion'', YMap [(YStr ''raw_data_path'', YStr ''artifacts/raw'')])]"

text \<open>A box that answers for no key under another name.\<close>

definition no_near_match :: conversion where
  "no_near_match kvs name = None"

definition text_training :: string where
  "text_training = ''data_ingestion: {raw_data_path: artifacts/raw}''"

definition text_broken :: string where
  "text_broken = ''database: [flight_prices''"

definition safe_load_example :: parser where
  "safe_load_example text =
     (if text = text_training then Inr doc_training
      else if text = [] then Inr YNull
      else Inl ''while parsing a flow sequence: expected , or ] but got <stream end>'')"

definition world_configs :: world where
  "world_configs =
     \<lparr>root = [''configs'' \<mapsto> Dir [''training-config.yaml'' \<mapsto> File text_training,
                                   ''broken.yaml'' \<mapsto> File text_broken]],
      calls = []\<rparr>"

section \<open>Facts about the file system\<close>

lemma os_stat_parent_is_dir: "os_stat m p = Inr n \<Longrightarrow> Path_is_dir m (parent p)"
proof (induction m p rule: os_stat.induct)
  case (1 m)
  then show ?case by (auto simp: parent_def Path_is_dir_def)
next
  case (2 m x xs)
  show ?case
  proof (cases "m x")
    case None
    with 2 show ?thesis by simp
  next
    case (Some k)
    show ?thesis
    proof (cases k)
      case (File c)
      with 2 Some show ?thesis
        by (simp add: parent_def Path_is_dir_def split: if_splits)
    next
      case (Dir m')
      with 2 Some have "Path_is_dir m' (parent xs)" by simp
      with Some Dir show ?thesis
        by (cases xs) (simp_all add: parent_def Path_is_dir_def)
    qed
  qed
qed

lemma os_mkdir_existing: "os_stat m p = Inr n \<Longrightarrow> os_mkdir m p = Inl EEXIST"
  by (induction m p rule: os_mkdir.induct)
     (auto simp: ENOENT_def ENOTDIR_def split: option.splits node.splits if_splits)

lemma mkdir_existing_dir: "Path_is_dir m p \<Longrightarrow> mkdir parents True p m = (None, m)"
proof -
  assume d: "Path_is_dir m p"
  then obtain n where "os_stat m p = Inr n"
    by (auto simp: Path_is_dir_def split: sum.splits)
  then have "os_mkdir m p = Inl EEXIST" by (rule os_mkdir_existing)
  with d show ?thesis
    by (simp add: mkdir.simps [of parents True p m] EEXIST_def)
qed

lemma os_mkdir_errors: "os_mkdir m p = Inl e \<Longrightarrow> e = ENOENT \<or> e = ENOTDIR \<or> e = EEXIST"
  by (induction m p rule: os_mkdir.induct)
     (auto split: option.splits node.splits sum.splits)

lemma os_stat_errors: "os_stat m p = Inl e \<Longrightarrow> e = ENOENT \<or> e = ENOTDIR"
  by (induction m p rule: os_stat.induct)
     (auto split: option.splits node.splits sum.splits if_splits)

lemma mkdir_induct_clean [case_names step]:
  assumes "\<And>parents exist_ok p m.
      (\<And>msg. os_mkdir m p = Inl (FileNotFoundError msg) \<Longrightarrow> parents \<Longrightarrow> parent p \<noteq> p
          \<Longrightarrow> P True True (parent p) m) \<Longrightarrow>
      (\<And>msg m1. os_mkdir m p = Inl (FileNotFoundError msg) \<Longrightarrow> parents \<Longrightarrow> parent p \<noteq> p
          \<Longrightarrow> mkdir True True (parent p) m = (None, m1) \<Longrightarrow> P False exist_ok p m1) \<Longrightarrow>
      P parents exist_ok p m"
  shows "P parents exist_ok p m"
proof (induction parents exist_ok p m rule: mkdir.induct)
  case (1 parents exist_ok p m)
  show ?case
  proof (rule assms)
    fix msg
    assume "os_mkdir m p = Inl (FileNotFoundError msg)" "parents" "parent p \<noteq> p"
    then show "P True True (parent p) m"
      by (intro "1.IH"(1) [of "FileNotFoundError msg" msg]) auto
  next
    fix msg m1
    assume "os_mkdir m p = Inl (FileNotFoundError msg)" "parents" "parent p \<noteq> p"
      "mkdir True True (parent p) m = (None, m1)"
    then show "P False exist_ok p m1"
      by (intro "1.IH"(2) [of "FileNotFoundError msg" msg None m1]) auto
  qed
qed

lemma mkdir_cases [consumes 1, case_names created noparent parentfail recurse other]:
  assumes "mkdir parents exist_ok p m = (r, m')"
  obtains
    (created) "os_mkdir m p = Inr m'" "r = None"
  | (noparent) msg where "os_mkdir m p = Inl (FileNotFoundError msg)" "\<not> parents \<or> parent p = p"
      "r = Some (FileNotFoundError msg)" "m' = m"
  | (parentfail) msg e where "os_mkdir m p = Inl (FileNotFoundError msg)" "parents" "parent p \<noteq> p"
      "mkdir True True (parent p) m = (Some e, m')" "r = Some e"
  | (recurse) msg m1 where "os_mkdir m p = Inl (FileNotFoundError msg)" "parents" "parent p \<noteq> p"
      "mkdir True True (parent p) m = (None, m1)" "mkdir False exist_ok p m1 = (r, m')"
  | (other) e where "os_mkdir m p = Inl e" "e = ENOTDIR \<or> e = EEXIST"
      "r = (if \<not> exist_ok \<or> \<not> Path_is_dir m p then Some e else None)" "m' = m"
proof -
  note u = assms [unfolded mkdir.simps [of parents exist_ok p m]]
  show ?thesis
  proof (cases "os_mkdir m p")
    case (Inr m1)
    with u have "m' = m1" "r = None" by auto
    with Inr created show ?thesis by simp
  next
    case (Inl e)
    from os_mkdir_errors [OF Inl] consider "e = ENOENT" | "e = ENOTDIR \<or> e = EEXIST" by blast
    then show ?thesis
    proof cases
      case 1
      with Inl have om: "os_mkdir m p = Inl (FileNotFoundError ''[Errno 2] No such file or directory'')"
        by (simp add: ENOENT_def)
      show ?thesis
      proof (cases "\<not> parents \<or> parent p = p")
        case True
        with om u noparent show ?thesis by simp
      next
        case False
        obtain r1 m1 where pm: "mkdir True True (parent p) m = (r1, m1)"
          by (cases "mkdir True True (parent p) m")
        show ?thesis
        proof (cases r1)
          case None
          with om False pm u have "mkdir False exist_ok p m1 = (r, m')" by simp
          with om False pm None recurse show ?thesis by simp
        next
          case (Some e1)
          with om False pm u have "r = Some e1" "m' = m1" by auto
          with om False pm Some parentfail show ?thesis by simp
        qed
      qed
    next
      case 2
      with Inl u have "r = (if \<not> exist_ok \<or> \<not> Path_is_dir m p then Some e else None)" "m' = m"
        by (auto simp: ENOTDIR_def EEXIST_def split: if_splits)
      with Inl 2 other show ?thesis by simp
    qed
  qed
qed

lemma mkdir_errors:
  "mkdir parents exist_ok p m = (Some e, m') \<Longrightarrow> e = ENOENT \<or> e = ENOTDIR \<or> e = EEXIST"
proof (induction parents exist_ok p m arbitrary: e m' rule: mkdir_induct_clean)
  case (step parents exist_ok p m)
  from step.prems show ?case
  proof (cases rule: mkdir_cases)
    case created then show ?thesis by simp
  next
    case (noparent msg)
    with os_mkdir_errors [of m p] show ?thesis by auto
  next
    case (parentfail msg e1)
    with step.IH(1) [of msg e m'] show ?thesis by simp
  next
    case (recurse msg m1)
    with step.IH(2) [of msg m1 e m'] show ?thesis by simp
  next
    case (other e1)
    then show ?thesis by (auto split: if_splits)
  qed
qed

lemma mkdir_rel:
  assumes "mkdir parents exist_ok p m = (r, m')"
    and "\<And>a. Q a a" and "\<And>a b c. Q a b \<Longrightarrow> Q b c \<Longrightarrow> Q a c"
    and "\<And>a q b. os_mkdir a q = Inr b \<Longrightarrow> prefix q p \<Longrightarrow> Q a b"
  shows "Q m m'"
  using assms(1,4)
proof (induction parents exist_ok p m arbitrary: r m' rule: mkdir_induct_clean)
  case (step parents exist_ok p m)
  have pp: "\<And>q. prefix q (parent p) \<Longrightarrow> prefix q p"
    by (metis parent_def prefix_order.trans prefixeq_butlast)
  from step.prems(1) show ?case
  proof (cases rule: mkdir_cases)
    case created then show ?thesis using step.prems(2) by blast
  next
    case (noparent msg) then show ?thesis using assms(2) by simp
  next
    case (parentfail msg e1)
    with step.IH(1) [of msg "Some e1" m'] step.prems(2) pp show ?thesis by blast
  next
    case (recurse msg m1)
    from step.IH(1) [of msg None m1] recurse step.prems(2) pp have "Q m m1" by blast
    moreover from step.IH(2) [of msg m1 r m'] recurse step.prems(2) have "Q m1 m'" by blast
    ultimately show ?thesis using assms(3) by blast
  next
    case (other e1) then show ?thesis using assms(2) by simp
  qed
qed


lemma os_stat_empty: "xs \<noteq> [] \<Longrightarrow> os_stat Map.empty xs = Inl ENOENT"
  by (cases xs) simp_all

lemma os_stat_Cons_Dir: "m x = Some (Dir d) \<Longrightarrow> os_stat m (x # xs) = os_stat d xs"
  by simp

lemma os_stat_Cons_other: "z \<noteq> x \<Longrightarrow> os_stat (m(x \<mapsto> n)) (z # zs) = os_stat m (z # zs)"
  by simp

lemma os_mkdir_ConsE:
  assumes "os_mkdir m (x # y # ys) = Inr m'"
  obtains d d' where "m x = Some (Dir d)" "os_mkdir d (y # ys) = Inr d'" "m' = m(x \<mapsto> Dir d')"
  using assms by (auto split: option.splits node.splits sum.splits)

lemma os_mkdir_created: "os_mkdir m p = Inr m' \<Longrightarrow> os_stat m' p = Inr (Dir Map.empty)"
proof (induction m p arbitrary: m' rule: os_mkdir.induct)
  case (1 m)
  then show ?case by simp
next
  case (2 m x)
  then show ?case by (auto split: option.splits)
next
  case (3 m x y ys)
  from "3.prems" obtain d d' where mx: "m x = Some (Dir d)"
    and od: "os_mkdir d (y # ys) = Inr d'" and m': "m' = m(x \<mapsto> Dir d')"
    by (rule os_mkdir_ConsE)
  have "os_stat m' (x # y # ys) = os_stat d' (y # ys)"
    by (rule os_stat_Cons_Dir) (simp add: m')
  also have "\<dots> = Inr (Dir Map.empty)"
    using mx refl od by (rule "3.IH")
  finally show ?case .
qed

lemma os_mkdir_frame:
  "os_mkdir m p = Inr m' \<Longrightarrow> \<not> prefix q p \<Longrightarrow> os_stat m' q = os_stat m q"
proof (induction m p arbitrary: m' q rule: os_mkdir.induct)
  case (1 m)
  then show ?case by simp
next
  case (2 m x)
  then obtain z zs where q: "q = z # zs" by (cases q) auto
  from "2.prems"(1) have mx: "m x = None" and m': "m' = m(x \<mapsto> Dir Map.empty)"
    by (auto split: option.splits)
  show ?case
  proof (cases "z = x")
    case False
    then show ?thesis unfolding q m' by (rule os_stat_Cons_other)
  next
    case True
    with "2.prems"(2) q have "zs \<noteq> []" by auto
    then have "os_stat Map.empty zs = Inl ENOENT" by (rule os_stat_empty)
    with True mx show ?thesis by (simp add: q m')
  qed
next
  case (3 m x y ys)
  then obtain z zs where q: "q = z # zs" by (cases q) auto
  from "3.prems"(1) obtain d d' where mx: "m x = Some (Dir d)"
    and od: "os_mkdir d (y # ys) = Inr d'" and m': "m' = m(x \<mapsto> Dir d')"
    by (rule os_mkdir_ConsE)
  show ?case
  proof (cases "z = x")
    case False
    then show ?thesis unfolding q m' by (rule os_stat_Cons_other)
  next
    case True
    with "3.prems"(2) q have np: "\<not> prefix zs (y # ys)" by simp
    have "os_stat m' (x # zs) = os_stat d' zs"
      by (rule os_stat_Cons_Dir) (simp add: m')
    also have "\<dots> = os_stat d zs"
      using mx refl od np by (rule "3.IH")
    also have "\<dots> = os_stat m (x # zs)"
      using mx by (rule os_stat_Cons_Dir [symmetric])
    finally show ?thesis using True q by simp
  qed
qed

lemma os_mkdir_keeps:
  "os_mkdir m p = Inr m' \<Longrightarrow> os_stat m q = Inr n \<Longrightarrow>
     (\<forall>c. n = File c \<longrightarrow> os_stat m' q = Inr n) \<and> (Path_is_dir m q \<longrightarrow> Path_is_dir m' q)"
proof (induction m p arbitrary: m' q rule: os_mkdir.induct)
  case (1 m)
  then show ?case by simp
next
  case (2 m x)
  from "2.prems"(1) have mx: "m x = None" and m': "m' = m(x \<mapsto> Dir Map.empty)"
    by (auto split: option.splits)
  show ?case
  proof (cases q)
    case Nil
    with "2.prems" show ?thesis by (auto simp: Path_is_dir_def)
  next
    case (Cons z zs)
    with "2.prems"(2) mx have "z \<noteq> x" by auto
    then have "os_stat m' (z # zs) = os_stat m (z # zs)"
      unfolding m' by (rule os_stat_Cons_other)
    with Cons "2.prems"(2) show ?thesis by (simp add: Path_is_dir_def)
  qed
next
  case (3 m x y ys)
  from "3.prems"(1) obtain d d' where mx: "m x = Some (Dir d)"
    and od: "os_mkdir d (y # ys) = Inr d'" and m': "m' = m(x \<mapsto> Dir d')"
    by (rule os_mkdir_ConsE)
  show ?case
  proof (cases q)
    case Nil
    with "3.prems" show ?thesis by (auto simp: Path_is_dir_def)
  next
    case (Cons z zs)
    show ?thesis
    proof (cases "z = x")
      case False
      then have "os_stat m' (z # zs) = os_stat m (z # zs)"
        unfolding m' by (rule os_stat_Cons_other)
      with Cons "3.prems"(2) show ?thesis by (simp add: Path_is_dir_def)
    next
      case True
      have a: "os_stat m' (x # zs) = os_stat d' zs"
        by (rule os_stat_Cons_Dir) (simp add: m')
      have b: "os_stat m (x # zs) = os_stat d zs"
        using mx by (rule os_stat_Cons_Dir)
      with "3.prems"(2) Cons True have "os_stat d zs = Inr n" by simp
      with mx refl od have "(\<forall>c. n = File c \<longrightarrow> os_stat d' zs = Inr n)
          \<and> (Path_is_dir d zs \<longrightarrow> Path_is_dir d' zs)"
        by (rule "3.IH")
      with a b Cons True show ?thesis by (simp add: Path_is_dir_def)
    qed
  qed
qed

lemma os_mkdir_keeps_dirs:
  "os_mkdir m p = Inr m' \<Longrightarrow> Path_is_dir m q \<Longrightarrow> Path_is_dir m' q"
proof -
  assume a: "os_mkdir m p = Inr m'" and b: "Path_is_dir m q"
  from b obtain n where "os_stat m q = Inr n"
    by (auto simp: Path_is_dir_def split: sum.splits)
  from os_mkdir_keeps [OF a this] b show ?thesis by simp
qed

lemma os_mkdir_keeps_files:
  "os_mkdir m p = Inr m' \<Longrightarrow> os_stat m q = Inr (File c) \<Longrightarrow> os_stat m' q = Inr (File c)"
  using os_mkdir_keeps [of m p m' q "File c"] by simp

lemma mkdir_frame:
  "mkdir parents exist_ok p m = (r, m') \<Longrightarrow> \<not> prefix q p \<Longrightarrow> os_stat m' q = os_stat m q"
proof -
  assume a: "mkdir parents exist_ok p m = (r, m')" and b: "\<not> prefix q p"
  show ?thesis
  proof (rule mkdir_rel [OF a, where Q = "\<lambda>a b. os_stat b q = os_stat a q"])
    fix a t c
    assume "os_mkdir a t = Inr c" "prefix t p"
    with b have "\<not> prefix q t" by (meson prefix_order.trans)
    with \<open>os_mkdir a t = Inr c\<close> show "os_stat c q = os_stat a q" by (rule os_mkdir_frame)
  qed simp_all
qed

lemma mkdir_keeps_dirs:
  "mkdir parents exist_ok p m = (r, m') \<Longrightarrow> Path_is_dir m q \<Longrightarrow> Path_is_dir m' q"
  by (rule mkdir_rel [where Q = "\<lambda>a b. Path_is_dir a q \<longrightarrow> Path_is_dir b q", rule_format])
     (auto intro: os_mkdir_keeps_dirs)

lemma mkdir_keeps_files:
  "mkdir parents exist_ok p m = (r, m') \<Longrightarrow> os_stat m q = Inr (File c) \<Longrightarrow> os_stat m' q = Inr (File c)"
  by (rule mkdir_rel [where Q = "\<lambda>a b. os_stat a q = Inr (File c) \<longrightarrow> os_stat b q = Inr (File c)", rule_format])
     (auto intro: os_mkdir_keeps_files)

lemma mkdir_success_is_dir:
  "mkdir parents exist_ok p m = (None, m') \<Longrightarrow> Path_is_dir m' p"
proof (induction parents exist_ok p m arbitrary: m' rule: mkdir_induct_clean)
  case (step parents exist_ok p m)
  from step.prems show ?case
  proof (cases rule: mkdir_cases)
    case created
    then show ?thesis by (simp add: Path_is_dir_def os_mkdir_created)
  next
    case (noparent msg) then show ?thesis by simp
  next
    case (parentfail msg e) then show ?thesis by simp
  next
    case (recurse msg m1)
    with step.IH(2) [of msg m1 m'] show ?thesis by simp
  next
    case (other e)
    then show ?thesis by (auto split: if_splits)
  qed
qed

lemma os_stat_enoent_in_dir:
  "Path_is_dir m (parent p) \<Longrightarrow> os_stat m p = Inl e \<Longrightarrow> e = ENOENT"
proof (induction m p rule: os_stat.induct)
  case (1 m)
  then show ?case by simp
next
  case (2 m x xs)
  show ?case
  proof (cases xs)
    case Nil
    with 2 show ?thesis by (auto split: option.splits node.splits)
  next
    case (Cons y ys)
    with 2 show ?thesis
      by (auto simp: parent_def Path_is_dir_def split: option.splits node.splits if_splits)
  qed
qed

lemma os_write_ConsE:
  assumes "os_write m (x # y # ys) data = Inr m'"
  obtains d d' where "m x = Some (Dir d)" "os_write d (y # ys) data = Inr d'" "m' = m(x \<mapsto> Dir d')"
  using assms by (auto split: option.splits node.splits sum.splits)

lemma os_write_keeps_dirs:
  "os_write m p data = Inr m' \<Longrightarrow> Path_is_dir m q \<Longrightarrow> Path_is_dir m' q"
proof (induction m p data arbitrary: m' q rule: os_write.induct)
  case (1 m data)
  then show ?case by simp
next
  case (2 m x data)
  from "2.prems"(1) have mx: "\<forall>d. m x \<noteq> Some (Dir d)" and m': "m' = m(x \<mapsto> File data)"
    by (auto split: option.splits node.splits)
  show ?case
  proof (cases q)
    case Nil
    then show ?thesis by (simp add: Path_is_dir_def)
  next
    case (Cons z zs)
    with "2.prems"(2) mx have "z \<noteq> x"
      by (auto simp: Path_is_dir_def split: option.splits node.splits if_splits)
    then have "os_stat m' (z # zs) = os_stat m (z # zs)"
      unfolding m' by (rule os_stat_Cons_other)
    with Cons "2.prems"(2) show ?thesis by (simp add: Path_is_dir_def)
  qed
next
  case (3 m x y ys data)
  from "3.prems"(1) obtain d d' where mx: "m x = Some (Dir d)"
    and od: "os_write d (y # ys) data = Inr d'" and m': "m' = m(x \<mapsto> Dir d')"
    by (rule os_write_ConsE)
  show ?case
  proof (cases q)
    case Nil
    then show ?thesis by (simp add: Path_is_dir_def)
  next
    case (Cons z zs)
    show ?thesis
    proof (cases "z = x")
      case False
      then have "os_stat m' (z # zs) = os_stat m (z # zs)"
        unfolding m' by (rule os_stat_Cons_other)
      with Cons "3.prems"(2) show ?thesis by (simp add: Path_is_dir_def)
    next
      case True
      have a: "os_stat m' (x # zs) = os_stat d' zs"
        by (rule os_stat_Cons_Dir) (simp add: m')
      have b: "os_stat m (x # zs) = os_stat d zs"
        using mx by (rule os_stat_Cons_Dir)
      with "3.prems"(2) Cons True have "Path_is_dir d zs" by (simp add: Path_is_dir_def)
      with mx refl od have "Path_is_dir d' zs" by (rule "3.IH")
      with a Cons True show ?thesis by (simp add: Path_is_dir_def)
    qed
  qed
qed

lemma extractall_keeps_dirs:
  "extractall dir ms m = (r, m') \<Longrightarrow> Path_is_dir m q \<Longrightarrow> Path_is_dir m' q"
proof (induction dir ms m arbitrary: r m' rule: extractall.induct)
  case (1 dir m)
  then show ?case by simp
next
  case (2 dir name d rest m)
  obtain r1 m1 where mk: "(if Path_exists m (parent (dir @ name)) then (None, m)
            else mkdir True False (parent (dir @ name)) m) = (r1, m1)"
    by (cases "(if Path_exists m (parent (dir @ name)) then (None, m)
            else mkdir True False (parent (dir @ name)) m)")
  then have d1: "Path_is_dir m1 q"
    using "2.prems"(2) by (auto split: if_splits dest: mkdir_keeps_dirs)
  show ?case
  proof (cases r1)
    case (Some e)
    with mk "2.prems" d1 show ?thesis by auto
  next
    case None
    show ?thesis
    proof (cases "os_write m1 (dir @ name) d")
      case (Inl e)
      with mk None "2.prems" d1 show ?thesis by auto
    next
      case (Inr m2)
      then have "Path_is_dir m2 q" using d1 by (rule os_write_keeps_dirs)
      moreover from mk None Inr "2.prems"(1) have "extractall dir rest m2 = (r, m')" by simp
      ultimately show ?thesis
        using "2.IH" [OF mk [symmetric] None Inr] by blast
    qed
  qed
qed


section \<open>Facts about \<open>download_zip\<close> and \<open>extract_all\<close>\<close>

lemma missing_and_empty_never_true: "missing_and_empty m p \<noteq> Inr True"
  by (auto simp: missing_and_empty_def py_and_def Path_exists_def stat_st_size_def split: sum.splits)

lemma missing_and_empty_cases:
  "missing_and_empty m p = (case os_stat m p of Inl e \<Rightarrow> Inl e | Inr n \<Rightarrow> Inr False)"
  by (auto simp: missing_and_empty_def py_and_def Path_exists_def stat_st_size_def split: sum.splits)

lemma already_downloaded_cases:
  "already_downloaded m p = (case os_stat m p of Inl e \<Rightarrow> Inr False | Inr n \<Rightarrow> Inr (0 < st_size n))"
  by (auto simp: already_downloaded_def py_and_def Path_exists_def stat_st_size_def split: sum.splits)

lemma download_zip_after_fetch:
  "after_fetch gd config w = Some m2 \<Longrightarrow>
   download_zip gd config w =
     (case os_stat m2 (download_file_path config) of Inl e \<Rightarrow> Some e | Inr n \<Rightarrow> None,
      \<lparr>root = m2,
       calls = calls w @ [GdownDownload (''https://drive.google.com/uc?id='' @ file_id config)
                            (download_file_path config)]\<rparr>)"
  by (auto simp: after_fetch_def download_zip_def Let_def missing_and_empty_cases
           split: prod.splits option.splits sum.splits bool.splits)

lemma download_zip_no_RuntimeError: "fst (download_zip gd config w) \<noteq> Some (RuntimeError msg)"
proof -
  have a: "\<And>parents exist_ok p m e m'. mkdir parents exist_ok p m = (Some e, m') \<Longrightarrow> e \<noteq> RuntimeError msg"
    by (drule mkdir_errors) (auto simp: ENOENT_def ENOTDIR_def EEXIST_def)
  have b: "\<And>m p e. os_stat m p = Inl e \<Longrightarrow> e \<noteq> RuntimeError msg"
    by (drule os_stat_errors) (auto simp: ENOENT_def ENOTDIR_def)
  show ?thesis
    by (auto simp: download_zip_def Let_def missing_and_empty_cases already_downloaded_cases
           split: prod.splits option.splits sum.splits bool.splits dest: a b)
qed

lemma extract_all_after_mkdir:
  assumes "mkdir True True (extract_dir config) (root w) = (None, m1)"
  shows "Path_is_dir (root (snd (extract_all members config w))) (extract_dir config)"
proof -
  from assms have d: "Path_is_dir m1 (extract_dir config)" by (rule mkdir_success_is_dir)
  have "\<And>ms r m2. extractall (extract_dir config) ms m1 = (r, m2)
          \<Longrightarrow> Path_is_dir m2 (extract_dir config)"
    using d by (rule extractall_keeps_dirs [rotated])
  with assms d show ?thesis
    by (auto simp: extract_all_def Let_def split: prod.splits option.splits sum.splits bool.splits)
qed

text \<open>The definitions that evaluating a concrete run unfolds.\<close>

lemmas eval_defs = download_zip_def extract_all_def after_fetch_def config_example_def world_empty_def
  gdown_leaves_nothing_def gdown_saves_def mkdir.simps parent_def already_downloaded_def
  missing_and_empty_def py_and_def Path_exists_def Path_is_dir_def stat_st_size_def os_read_def
  config_nested_def no_members_def

section \<open>Facts about \<open>get_logger\<close>\<close>

lemma get_logger_returns:
  "get_logger name p mode s = (Inr r, s') \<Longrightarrow> r = logger_key name \<and> configured name s'"
  by (auto simp: get_logger_def configured_def Let_def
      split: prod.splits option.splits sum.splits if_splits)

lemma get_logger_configured:
  assumes "configured name s"
  shows "get_logger name p mode s =
     (case mkdir True True (parent p) (fsys s) of
        (Some e, m1) \<Rightarrow> (Inl e, s\<lparr>fsys := m1\<rparr>)
      | (None, m1) \<Rightarrow> (Inr (logger_key name), s\<lparr>fsys := m1\<rparr>))"
proof -
  from assms obtain lg where lg: "loggerDict s (logger_key name) = Some lg"
    and l: "level lg = INFO" and h: "handlers lg \<noteq> []" and pr: "\<not> propagate lg"
    by (auto simp: configured_def split: option.splits)
  have "lg\<lparr>level := INFO, propagate := False\<rparr> = lg" using l pr by simp
  moreover have "(loggerDict s)(logger_key name \<mapsto> lg) = loggerDict s"
    using lg by (rule map_upd_triv)
  ultimately show ?thesis using lg h
    by (auto simp: get_logger_def getLogger_def Let_def split: prod.splits option.splits)
qed


lemma os_write_result: "os_write m p data = Inr m' \<Longrightarrow> os_stat m' p = Inr (File data)"
proof (induction m p data arbitrary: m' rule: os_write.induct)
  case (1 m data)
  then show ?case by simp
next
  case (2 m x data)
  then show ?case by (auto split: option.splits node.splits)
next
  case (3 m x y ys data)
  from "3.prems" obtain d d' where mx: "m x = Some (Dir d)"
    and od: "os_write d (y # ys) data = Inr d'" and m': "m' = m(x \<mapsto> Dir d')"
    by (rule os_write_ConsE)
  have "os_stat m' (x # y # ys) = os_stat d' (y # ys)"
    by (rule os_stat_Cons_Dir) (simp add: m')
  also have "\<dots> = Inr (File data)"
    using mx refl od by (rule "3.IH")
  finally show ?case .
qed

lemma os_write_existing_file:
  "os_stat m p = Inr (File c) \<Longrightarrow> \<exists>m'. os_write m p data = Inr m'"
proof (induction m p data rule: os_write.induct)
  case (1 m data)
  then show ?case by simp
next
  case (2 m x data)
  then show ?case by (auto split: option.splits node.splits)
next
  case (3 m x y ys data)
  from "3.prems" obtain d where mx: "m x = Some (Dir d)" and st: "os_stat d (y # ys) = Inr (File c)"
    by (auto split: option.splits node.splits if_splits)
  from mx refl st have "\<exists>d'. os_write d (y # ys) data = Inr d'" by (rule "3.IH")
  with mx show ?case by auto
qed

lemma open_log_file: "open_log m p mode = Inr m' \<Longrightarrow> \<exists>c. os_stat m' p = Inr (File c)"
  by (cases mode) (auto simp: open_log_def dest: os_write_result split: sum.splits node.splits)

lemma emit_loggerDict: "loggerDict (emit line s h) = loggerDict s"
  by (cases h) (auto split: sum.splits node.splits)

lemma foldl_emit_loggerDict: "loggerDict (foldl (emit line) s hs) = loggerDict s"
  by (induction hs arbitrary: s) (simp_all add: emit_loggerDict)

lemma info_loggerDict: "loggerDict (info k asctime module message s) = loggerDict s"
  by (simp add: info_def Let_def foldl_emit_loggerDict split: option.splits)

lemma run_actions_loggerDict:
  "configured name s \<Longrightarrow> loggerDict (run_actions name acts s) = loggerDict s"
proof (induction acts arbitrary: s)
  case Nil
  then show ?case by simp
next
  case (Cons a acts)
  show ?case
  proof (cases a)
    case (Call p mode)
    obtain r m1 where mk: "mkdir True True (parent p) (fsys s) = (r, m1)"
      by (cases "mkdir True True (parent p) (fsys s)")
    from get_logger_configured [OF Cons.prems, of p mode] mk
    have s1: "snd (get_logger name p mode s) = s\<lparr>fsys := m1\<rparr>" by (cases r) simp_all
    then have "configured name (snd (get_logger name p mode s))"
      using Cons.prems by (simp add: configured_def)
    from Cons.IH [OF this] s1 Call show ?thesis by simp
  next
    case (Log asctime module message)
    have "configured name (info (logger_key name) asctime module message s)"
      using Cons.prems by (simp add: configured_def info_loggerDict)
    from Cons.IH [OF this] Log show ?thesis by (simp add: info_loggerDict)
  qed
qed

lemma info_attached:
  assumes "loggerDict s k = Some \<lparr>level = INFO, handlers = [FileHandler p1, StreamHandler],
              propagate = False\<rparr>"
    and "os_stat (fsys s) p1 = Inr (File c)"
  shows "os_stat (fsys (info k asctime module message s)) p1
           = Inr (File (c @ format_record asctime k module ''INFO'' message @ [CHR 0x0A]))
         \<and> console (info k asctime module message s)
           = console s @ [format_record asctime k module ''INFO'' message]"
proof -
  let ?line = "format_record asctime k module ''INFO'' message"
  from os_write_existing_file [OF assms(2)] obtain m3
    where w: "os_write (fsys s) p1 (c @ ?line @ [CHR 0x0A]) = Inr m3" by blast
  then have st3: "os_stat m3 p1 = Inr (File (c @ ?line @ [CHR 0x0A]))" by (rule os_write_result)
  have "info k asctime module message s = s\<lparr>fsys := m3, console := console s @ [?line]\<rparr>"
    using assms w by (simp add: info_def INFO_def NOTSET_def)
  with st3 show ?thesis by simp
qed

lemma run_actions_logged:
  assumes "loggerDict s (logger_key name) = Some \<lparr>level = INFO,
              handlers = [FileHandler p1, StreamHandler], propagate = False\<rparr>"
    and "os_stat (fsys s) p1 = Inr (File c)"
  shows "os_stat (fsys (run_actions name acts s)) p1
           = Inr (File (c @ concat (map (\<lambda>l. l @ [CHR 0x0A]) (logged (logger_key name) acts))))
         \<and> console (run_actions name acts s) = console s @ logged (logger_key name) acts"
  using assms
proof (induction acts arbitrary: s c)
  case Nil
  then show ?case by simp
next
  case (Cons a acts)
  from Cons.prems(1) have cf: "configured name s" by (simp add: configured_def)
  show ?case
  proof (cases a)
    case (Call p mode)
    obtain r m1 where mk: "mkdir True True (parent p) (fsys s) = (r, m1)"
      by (cases "mkdir True True (parent p) (fsys s)")
    from get_logger_configured [OF cf, of p mode] mk
    have s1: "snd (get_logger name p mode s) = s\<lparr>fsys := m1\<rparr>" by (cases r) simp_all
    from mk Cons.prems(2) have "os_stat m1 p1 = Inr (File c)" by (rule mkdir_keeps_files)
    with s1 Cons.prems(1)
    have "os_stat (fsys (run_actions name acts (snd (get_logger name p mode s)))) p1
           = Inr (File (c @ concat (map (\<lambda>l. l @ [CHR 0x0A]) (logged (logger_key name) acts))))
         \<and> console (run_actions name acts (snd (get_logger name p mode s)))
           = console (snd (get_logger name p mode s)) @ logged (logger_key name) acts"
      by (intro Cons.IH) simp_all
    with s1 Call show ?thesis by simp
  next
    case (Log asctime module message)
    let ?s1 = "info (logger_key name) asctime module message s"
    let ?line = "format_record asctime (logger_key name) module ''INFO'' message"
    from info_attached [OF Cons.prems, of asctime module message]
    have f: "os_stat (fsys ?s1) p1 = Inr (File (c @ ?line @ [CHR 0x0A]))"
      and o: "console ?s1 = console s @ [?line]" by simp_all
    have d: "loggerDict ?s1 (logger_key name) = Some \<lparr>level = INFO,
              handlers = [FileHandler p1, StreamHandler], propagate = False\<rparr>"
      using Cons.prems(1) by (simp add: info_loggerDict)
    from Cons.IH [OF d f] o Log show ?thesis by simp
  qed
qed

lemmas log_eval_defs = get_logger_def getLogger_def logger_key_def open_log_def process_fresh_def
  process_logging_def log_first_def log_under_file_def log_other_def INFO_def NOTSET_def
  mkdir.simps parent_def Path_is_dir_def ENOENT_def EEXIST_def Let_def

lemma get_logger_first_call:
  "get_logger ''Data Ingestion'' log_first W process_fresh = (Inr ''Data Ingestion'', process_logging)"
  by (simp add: log_eval_defs)

section \<open>Facts about \<open>ingest_db\<close> and \<open>load_yaml\<close>\<close>

lemma ingest_files_result:
  "ingest_files read_csv config files db = (None, db') \<Longrightarrow>
     (filter (\<lambda>f. endswith f ''.csv'') files = [] \<longrightarrow> db' = db)
     \<and> (filter (\<lambda>f. endswith f ''.csv'') files \<noteq> [] \<longrightarrow>
          (\<exists>df. read_csv (data_dir config @ [last (filter (\<lambda>f. endswith f ''.csv'') files)]) = Inr df
                \<and> tables db' (table_name config) = Some df))"
proof (induction files arbitrary: db)
  case Nil
  then show ?case by simp
next
  case (Cons name rest)
  let ?csv = "\<lambda>f. endswith f ''.csv''"
  show ?case
  proof (cases "?csv name")
    case False
    with Cons.prems have "ingest_files read_csv config rest db = (None, db')" by simp
    from Cons.IH [OF this] False show ?thesis by simp
  next
    case True
    with Cons.prems obtain df db1 where rd: "read_csv (data_dir config @ [name]) = Inr df"
      and ts: "to_sql_replace (table_name config) df db = (None, db1)"
      and rec: "ingest_files read_csv config rest db1 = (None, db')"
      by (auto split: sum.splits prod.splits option.splits)
    from ts have t1: "tables db1 (table_name config) = Some df"
      by (auto simp: to_sql_replace_def split: if_splits)
    from Cons.IH [OF rec] True rd t1 show ?thesis by auto
  qed
qed

lemmas ingest_eval_defs = ingest_db_def listdir_ab_def read_csv_ab_def config_ingest_def
  database_empty_def to_sql_replace_def endswith_def frame_a_def frame_b_def

lemma load_yaml_empty:
  "os_read m path = Inr text \<Longrightarrow> safe_load text = Inr YNull \<Longrightarrow>
     load_yaml safe_load m path = Inl (ValueError (''YAML file at '' @ str_path path @ '' is empty''))"
  by (simp add: load_yaml_def)

lemma load_yaml_unsupported:
  "os_read m path = Inr text \<Longrightarrow> safe_load text = Inr content \<Longrightarrow> content \<noteq> YNull \<Longrightarrow>
   ConfigBox content = Inl (BoxValueError msg) \<Longrightarrow>
     load_yaml safe_load m path = Inl (ValueError ''YAML file is invalid or contains unsupported values'')"
  by (cases content) (auto simp: load_yaml_def)

lemma load_yaml_mapping:
  "os_read m path = Inr text \<Longrightarrow> safe_load text = Inr (YMap kvs) \<Longrightarrow>
     load_yaml safe_load m path = Inr (YMap kvs)"
  by (simp add: load_yaml_def)

lemmas config_eval_defs = load_yaml_def ConfigurationManager_init_def os_read_def doc_training_def
  text_training_def text_broken_def safe_load_example_def world_configs_def no_near_match_def
  mkdir.simps parent_def Path_is_dir_def ENOENT_def EEXIST_def

section \<open>Claims about \<open>download_zip\<close>\<close>

text \<open>
  C1. If, when \<open>download_zip\<close> is invoked, the path \<open>download_file_path\<close> exists and its
  size is greater than zero, the call returns without raising, makes no call to
  \<open>gdown.download\<close>, and leaves the whole file system (so the archive too) as it was:
  the world after the call is the world before it.
\<close>

theorem download_zip_skips_existing_archive:
  assumes "os_stat (root w) (download_file_path config) = Inr n"
    and "0 < st_size n"
  shows "download_zip gdown_download config w = (None, w)"
proof -
  let ?p = "download_file_path config"
  have "Path_is_dir (root w) (parent ?p)"
    using assms(1) by (rule os_stat_parent_is_dir)
  then have mk: "mkdir True True (parent ?p) (root w) = (None, root w)"
    by (rule mkdir_existing_dir)
  have "already_downloaded (root w) ?p = Inr True"
    using assms by (simp add: already_downloaded_def py_and_def Path_exists_def stat_st_size_def)
  with mk show ?thesis
    by (simp add: download_zip_def)
qed

theorem download_zip_skips_existing_archive_witness:
  "os_stat (root world_with_archive) (download_file_path config_example) = Inr (File ''PK'')
   \<and> 0 < st_size (File ''PK'')
   \<and> download_zip gdown_leaves_nothing config_example world_with_archive
       = (None, world_with_archive)"
proof -
  have a: "os_stat (root world_with_archive) (download_file_path config_example) = Inr (File ''PK'')"
    by (simp add: world_with_archive_def fs_with_archive_def config_example_def)
  have b: "0 < st_size (File ''PK'')" by simp
  from download_zip_skips_existing_archive [OF a b] a b show ?thesis by simp
qed

text \<open>
  C2. The claim: after a fetch, if the target path still does not exist, \<open>download_zip\<close>
  fails with \<open>RuntimeError("Download failed or produced an empty file")\<close>. The code does
  not: with an empty file system and a \<open>gdown.download\<close> that returns without leaving a
  file, the fetch is made, the path is absent afterwards, and the call raises the
  \<open>FileNotFoundError\<close> of \<open>stat()\<close>, evaluated by the guard on line 104 before the
  \<open>raise RuntimeError\<close> can be reached.
\<close>

theorem download_zip_absent_after_fetch_raises_FileNotFoundError:
  "after_fetch gdown_leaves_nothing config_example world_empty = Some [''tmp'' \<mapsto> Dir Map.empty]
   \<and> \<not> Path_exists [''tmp'' \<mapsto> Dir Map.empty] (download_file_path config_example)
   \<and> download_zip gdown_leaves_nothing config_example world_empty =
       (Some (FileNotFoundError ''[Errno 2] No such file or directory''),
        \<lparr>root = [''tmp'' \<mapsto> Dir Map.empty],
         calls = [GdownDownload ''https://drive.google.com/uc?id=X'' [''tmp'', ''a.zip'']]\<rparr>)"
  by (simp add: eval_defs ENOENT_def)

text \<open>
  C9. The \<open>raise RuntimeError\<close> of \<open>download_zip\<close> is unreachable: its guard
  \<open>not path.exists() and path.stat().st_size == 0\<close> is never true, and no run of
  \<open>download_zip\<close> ends in a \<open>RuntimeError\<close>, whatever \<open>gdown.download\<close> does. When the
  fetch has returned and the file does not exist, the call raises what \<open>stat()\<close>
  raises: \<open>FileNotFoundError\<close> as long as the parent directory (created just before the
  fetch) is still a directory, \<open>NotADirectoryError\<close> otherwise. When the fetch has left a
  zero-byte file, the call raises nothing.
\<close>

theorem download_zip_runtime_error_unreachable:
  "missing_and_empty m p \<noteq> Inr True
   \<and> fst (download_zip gd config w) \<noteq> Some (RuntimeError msg)
   \<and> (after_fetch gd config w = Some m2 \<longrightarrow>
        (\<not> Path_exists m2 (download_file_path config) \<longrightarrow>
           (\<exists>e. os_stat m2 (download_file_path config) = Inl e
                \<and> fst (download_zip gd config w) = Some e
                \<and> (e = ENOENT \<or> e = ENOTDIR))
           \<and> (Path_is_dir m2 (parent (download_file_path config)) \<longrightarrow>
                fst (download_zip gd config w) = Some ENOENT))
        \<and> (os_stat m2 (download_file_path config) = Inr (File []) \<longrightarrow>
             fst (download_zip gd config w) = None))"
proof (intro conjI impI)
  show "missing_and_empty m p \<noteq> Inr True" by (rule missing_and_empty_never_true)
  show "fst (download_zip gd config w) \<noteq> Some (RuntimeError msg)" by (rule download_zip_no_RuntimeError)
next
  assume af: "after_fetch gd config w = Some m2"
    and ne: "\<not> Path_exists m2 (download_file_path config)"
  from ne obtain e where e: "os_stat m2 (download_file_path config) = Inl e"
    by (auto simp: Path_exists_def split: sum.splits)
  with download_zip_after_fetch [OF af] os_stat_errors [OF e]
  show "\<exists>e. os_stat m2 (download_file_path config) = Inl e
                \<and> fst (download_zip gd config w) = Some e
                \<and> (e = ENOENT \<or> e = ENOTDIR)"
    by simp
  assume "Path_is_dir m2 (parent (download_file_path config))"
  from os_stat_enoent_in_dir [OF this e] e download_zip_after_fetch [OF af]
  show "fst (download_zip gd config w) = Some ENOENT" by simp
next
  assume af: "after_fetch gd config w = Some m2"
    and "os_stat m2 (download_file_path config) = Inr (File [])"
  with download_zip_after_fetch [OF af] show "fst (download_zip gd config w) = None" by simp
qed

theorem download_zip_runtime_error_unreachable_witness:
  "after_fetch gdown_leaves_nothing config_example world_empty = Some [''tmp'' \<mapsto> Dir Map.empty]
   \<and> \<not> Path_exists [''tmp'' \<mapsto> Dir Map.empty] (download_file_path config_example)
   \<and> Path_is_dir [''tmp'' \<mapsto> Dir Map.empty] (parent (download_file_path config_example))
   \<and> fst (download_zip gdown_leaves_nothing config_example world_empty) = Some ENOENT
   \<and> after_fetch (gdown_saves []) config_example world_empty
        = Some [''tmp'' \<mapsto> Dir [''a.zip'' \<mapsto> File []]]
   \<and> os_stat [''tmp'' \<mapsto> Dir [''a.zip'' \<mapsto> File []]] (download_file_path config_example)
        = Inr (File [])
   \<and> fst (download_zip (gdown_saves []) config_example world_empty) = None"
proof -
  have a: "after_fetch gdown_leaves_nothing config_example world_empty
             = Some [''tmp'' \<mapsto> Dir Map.empty]"
    by (simp add: eval_defs ENOENT_def)
  have b: "\<not> Path_exists [''tmp'' \<mapsto> Dir Map.empty] (download_file_path config_example)"
    by (simp add: eval_defs)
  have c: "Path_is_dir [''tmp'' \<mapsto> Dir Map.empty] (parent (download_file_path config_example))"
    by (simp add: eval_defs)
  have d: "after_fetch (gdown_saves []) config_example world_empty
             = Some [''tmp'' \<mapsto> Dir [''a.zip'' \<mapsto> File []]]"
    by (simp add: eval_defs ENOENT_def)
  have e: "os_stat [''tmp'' \<mapsto> Dir [''a.zip'' \<mapsto> File []]] (download_file_path config_example)
             = Inr (File [])"
    by (simp add: eval_defs)
  from download_zip_runtime_error_unreachable
      [where gd = gdown_leaves_nothing and config = config_example and w = world_empty
         and ?m2.0 = "[''tmp'' \<mapsto> Dir Map.empty]"]
    download_zip_runtime_error_unreachable
      [where gd = "gdown_saves []" and config = config_example and w = world_empty
         and ?m2.0 = "[''tmp'' \<mapsto> Dir [''a.zip'' \<mapsto> File []]]"]
    a b c d e
  show ?thesis by simp
qed

section \<open>Claims about \<open>extract_all\<close>\<close>

text \<open>
  C5. The claim: when the archive path does not exist, \<open>extract_all\<close> fails with
  \<open>FileNotFoundError\<close>. The code does not always: with the archive path \<open>data\<close> absent and
  the extraction directory \<open>data/out\<close>, the creation of the extraction directory on
  line 126, which comes before the validation, creates \<open>data\<close> as a directory; the guard
  on line 128 then finds that the path exists, \<open>ZipFile\<close> is called on a directory, and
  the call fails with \<open>IsADirectoryError\<close>.
\<close>

theorem extract_all_missing_archive_raises_IsADirectoryError:
  "\<not> Path_exists (root world_empty) (download_file_path config_nested)
   \<and> fst (mkdir True True (parent (download_file_path config_nested)) (root world_empty)) = None
   \<and> fst (mkdir True True (extract_dir config_nested) (root world_empty)) = None
   \<and> extract_all no_members config_nested world_empty =
       (Some (IsADirectoryError ''[Errno 21] Is a directory''),
        \<lparr>root = [''data'' \<mapsto> Dir [''out'' \<mapsto> Dir Map.empty]],
         calls = [ZipExtractAll [''data''] [''data'', ''out'']]\<rparr>)"
  by (simp add: eval_defs ENOENT_def EISDIR_def EEXIST_def)

text \<open>
  C10. \<open>extract_all\<close> creates \<open>extract_dir\<close> (with its parents) before it looks at the
  archive. For a configuration whose \<open>extract_dir\<close> exists or can be created (the
  creation on line 126 does not raise), \<open>extract_dir\<close> is a directory after every call of
  \<open>extract_all\<close>, whatever happens next: a missing archive, an unreadable one, a failing
  extraction.
\<close>

theorem extract_all_creates_extract_dir_first:
  assumes "fst (mkdir True True (extract_dir config) (root w)) = None"
  shows "Path_is_dir (root (snd (extract_all members config w))) (extract_dir config)"
proof -
  from assms obtain m1 where "mkdir True True (extract_dir config) (root w) = (None, m1)"
    by (cases "mkdir True True (extract_dir config) (root w)") simp
  then show ?thesis by (rule extract_all_after_mkdir)
qed

theorem extract_all_creates_extract_dir_first_witness:
  "fst (mkdir True True (extract_dir config_example) (root world_empty)) = None
   \<and> \<not> Path_is_dir (root world_empty) (extract_dir config_example)
   \<and> fst (extract_all no_members config_example world_empty) = Some ENOENT
   \<and> Path_is_dir (root (snd (extract_all no_members config_example world_empty)))
        (extract_dir config_example)"
proof -
  have a: "fst (mkdir True True (extract_dir config_example) (root world_empty)) = None"
    by (simp add: eval_defs ENOENT_def)
  have b: "\<not> Path_is_dir (root world_empty) (extract_dir config_example)"
    by (simp add: eval_defs ENOENT_def)
  have c: "fst (extract_all no_members config_example world_empty) = Some ENOENT"
    by (simp add: eval_defs ENOENT_def)
  from extract_all_creates_extract_dir_first [OF a, where members = no_members] a b c
  show ?thesis by simp
qed

section \<open>Claims about \<open>get_logger\<close>\<close>

text \<open>
  C3, as stated, fails. \<open>get_logger\<close> creates the parent directory of the path it is
  given on line 55, before it looks the logger up. After a first call with
  \<open>logs/data_ingestion.log\<close>, a second call with the same name and the path
  \<open>logs/data_ingestion.log/x.log\<close> raises \<open>FileExistsError\<close> (the parent is the log file
  itself) instead of returning the logger.
\<close>

theorem get_logger_repeated_call_counterexample:
  "get_logger ''Data Ingestion'' log_first W process_fresh = (Inr ''Data Ingestion'', process_logging)
   \<and> get_logger ''Data Ingestion'' log_under_file A process_logging = (Inl EEXIST, process_logging)"
  by (simp add: log_eval_defs)

text \<open>
  C3, amended. Let a first call of \<open>get_logger\<close> with a name have returned. Whatever the
  process then does with that name (further calls of \<open>get_logger\<close> with any path and
  mode, returning or raising, and records logged through the logger), the registry stays
  as the first call left it: the logger is the same and unchanged, and no second file or
  console handler is attached. A further call first creates the parent directory of the
  path it is given: when that creation raises, the call raises the same exception; when
  it does not, the call returns the same logger. When, moreover, the logger had no
  handler before the first call, so that the first call attached the file and the
  console handler, the log file of the first call holds in the end what it held after
  the first call followed by the logged lines, each exactly once and in order, and the
  console has received each line exactly once.
\<close>

theorem get_logger_repeated_call:
  assumes "get_logger name p1 mode1 s0 = (Inr lg, s1)"
  shows "loggerDict (run_actions name acts s1) = loggerDict s1
    \<and> (mkdir True True (parent p) (fsys (run_actions name acts s1)) = (None, m) \<longrightarrow>
          get_logger name p mode (run_actions name acts s1)
            = (Inr lg, (run_actions name acts s1)\<lparr>fsys := m\<rparr>))
    \<and> (mkdir True True (parent p) (fsys (run_actions name acts s1)) = (Some e, m) \<longrightarrow>
          get_logger name p mode (run_actions name acts s1)
            = (Inl e, (run_actions name acts s1)\<lparr>fsys := m\<rparr>))
    \<and> (handlers (getLogger name s0) = [] \<longrightarrow>
          (\<exists>c0. os_stat (fsys s1) p1 = Inr (File c0)
             \<and> os_stat (fsys (run_actions name acts s1)) p1
                 = Inr (File (c0 @ concat (map (\<lambda>l. l @ [CHR 0x0A]) (logged lg acts))))
             \<and> console (run_actions name acts s1) = console s1 @ logged lg acts))"
proof -
  let ?s2 = "run_actions name acts s1"
  from get_logger_returns [OF assms] have lg: "lg = logger_key name" and c1: "configured name s1"
    by simp_all
  have d2: "loggerDict ?s2 = loggerDict s1" using c1 by (rule run_actions_loggerDict)
  with c1 have c2: "configured name ?s2" by (simp add: configured_def)
  note g = get_logger_configured [OF c2, of p mode]
  have b: "mkdir True True (parent p) (fsys ?s2) = (None, m) \<longrightarrow>
          get_logger name p mode ?s2 = (Inr lg, ?s2\<lparr>fsys := m\<rparr>)"
    using g lg by simp
  have c: "mkdir True True (parent p) (fsys ?s2) = (Some e, m) \<longrightarrow>
          get_logger name p mode ?s2 = (Inl e, ?s2\<lparr>fsys := m\<rparr>)"
    using g by simp
  have d: "handlers (getLogger name s0) = [] \<longrightarrow>
          (\<exists>c0. os_stat (fsys s1) p1 = Inr (File c0)
             \<and> os_stat (fsys ?s2) p1
                 = Inr (File (c0 @ concat (map (\<lambda>l. l @ [CHR 0x0A]) (logged lg acts))))
             \<and> console ?s2 = console s1 @ logged lg acts)"
  proof
    assume h0: "handlers (getLogger name s0) = []"
    with assms obtain m0 m1' where op: "open_log m0 p1 mode1 = Inr m1'" and f1: "fsys s1 = m1'"
      and l1: "loggerDict s1 lg = Some \<lparr>level = INFO, handlers = [FileHandler p1, StreamHandler],
                  propagate = False\<rparr>"
      by (auto simp: get_logger_def Let_def getLogger_def
          split: prod.splits option.splits sum.splits if_splits)
    from open_log_file [OF op] f1 obtain c0 where st: "os_stat (fsys s1) p1 = Inr (File c0)" by auto
    from run_actions_logged [OF l1 [unfolded lg] st, of acts] st lg
    show "\<exists>c0. os_stat (fsys s1) p1 = Inr (File c0)
             \<and> os_stat (fsys ?s2) p1
                 = Inr (File (c0 @ concat (map (\<lambda>l. l @ [CHR 0x0A]) (logged lg acts))))
             \<and> console ?s2 = console s1 @ logged lg acts"
      by auto
  qed
  from d2 b c d show ?thesis by blast
qed

theorem get_logger_repeated_call_witness:
  "get_logger ''Data Ingestion'' log_first W process_fresh = (Inr ''Data Ingestion'', process_logging)
   \<and> handlers (getLogger ''Data Ingestion'' process_fresh) = []
   \<and> os_stat (fsys process_logging) log_first = Inr (File [])
   \<and> loggerDict (run_actions ''Data Ingestion'' actions_example process_logging)
        = loggerDict process_logging
   \<and> os_stat (fsys (run_actions ''Data Ingestion'' actions_example process_logging)) log_first
        = Inr (File (''2026-01-01 00:00:00 - Data Ingestion - data_ingestion - INFO - Reading data from DB...\<newline>''
                     @ ''2026-01-01 00:00:01 - Data Ingestion - data_ingestion - INFO - Data loaded\<newline>''))
   \<and> mkdir True True (parent log_other) (fsys process_logging)
        = (None, (fsys process_logging)(''tmp'' \<mapsto> Dir Map.empty))
   \<and> get_logger ''Data Ingestion'' log_other A process_logging
        = (Inr ''Data Ingestion'', process_logging\<lparr>fsys := (fsys process_logging)(''tmp'' \<mapsto> Dir Map.empty)\<rparr>)
   \<and> mkdir True True (parent log_under_file) (fsys process_logging)
        = (Some EEXIST, fsys process_logging)
   \<and> get_logger ''Data Ingestion'' log_under_file W process_logging
        = (Inl EEXIST, process_logging\<lparr>fsys := fsys process_logging\<rparr>)"
proof -
  have a: "handlers (getLogger ''Data Ingestion'' process_fresh) = []"
    by (simp add: log_eval_defs)
  have b: "os_stat (fsys process_logging) log_first = Inr (File [])"
    by (simp add: log_eval_defs)
  have c: "mkdir True True (parent log_other) (fsys process_logging)
        = (None, (fsys process_logging)(''tmp'' \<mapsto> Dir Map.empty))"
    by (simp add: log_eval_defs)
  have d: "mkdir True True (parent log_under_file) (fsys process_logging)
        = (Some EEXIST, fsys process_logging)"
    by (simp add: log_eval_defs)
  have e: "logged ''Data Ingestion'' actions_example =
     [''2026-01-01 00:00:00 - Data Ingestion - data_ingestion - INFO - Reading data from DB...'',
      ''2026-01-01 00:00:01 - Data Ingestion - data_ingestion - INFO - Data loaded'']"
    by (simp add: actions_example_def format_record_def)
  note t = get_logger_repeated_call [OF get_logger_first_call]
  from t [where acts = actions_example]
    t [where acts = "[]" and p = log_other and mode = A
         and m = "(fsys process_logging)(''tmp'' \<mapsto> Dir Map.empty)"]
    t [where acts = "[]" and p = log_under_file and mode = W and e = EEXIST
         and m = "fsys process_logging"]
    a b c d e get_logger_first_call
  show ?thesis by simp
qed

section \<open>Claims about \<open>ingest_db\<close>\<close>

text \<open>
  C4. When \<open>ingest_db\<close> completes and the listing of \<open>data_dir\<close> holds at least one name
  that ends in \<open>.csv\<close>, the destination table holds exactly the frame read from the last
  such name of the listing: every file replaces the table. With \<open>a.csv\<close> listed before
  \<open>b.csv\<close>, the table ends as the rows of \<open>b.csv\<close>.
\<close>

theorem ingest_db_last_file_wins:
  assumes "ingest_db listdir read_csv config db = (None, db')"
    and "listdir (data_dir config) = Inr files"
    and "filter (\<lambda>f. endswith f ''.csv'') files \<noteq> []"
  shows "\<exists>df. read_csv (data_dir config @ [last (filter (\<lambda>f. endswith f ''.csv'') files)]) = Inr df
              \<and> tables db' (table_name config) = Some df"
proof -
  from assms(1,2) have "ingest_files read_csv config files db = (None, db')"
    by (simp add: ingest_db_def)
  from ingest_files_result [OF this] assms(3) show ?thesis by blast
qed

theorem ingest_db_last_file_wins_witness:
  "ingest_db listdir_ab read_csv_ab config_ingest database_empty
     = (None, \<lparr>reachable = True, tables = [''flight_prices'' \<mapsto> frame_b]\<rparr>)
   \<and> listdir_ab (data_dir config_ingest) = Inr [''a.csv'', ''notes.txt'', ''b.csv'']
   \<and> filter (\<lambda>f. endswith f ''.csv'') [''a.csv'', ''notes.txt'', ''b.csv''] = [''a.csv'', ''b.csv'']
   \<and> read_csv_ab (data_dir config_ingest @ [''b.csv'']) = Inr frame_b
   \<and> tables (snd (ingest_db listdir_ab read_csv_ab config_ingest database_empty)) (table_name config_ingest)
       = Some frame_b"
proof -
  have a: "ingest_db listdir_ab read_csv_ab config_ingest database_empty
     = (None, \<lparr>reachable = True, tables = [''flight_prices'' \<mapsto> frame_b]\<rparr>)"
    by (simp add: ingest_eval_defs)
  have b: "listdir_ab (data_dir config_ingest) = Inr [''a.csv'', ''notes.txt'', ''b.csv'']"
    by (simp add: listdir_ab_def)
  have c: "filter (\<lambda>f. endswith f ''.csv'') [''a.csv'', ''notes.txt'', ''b.csv''] = [''a.csv'', ''b.csv'']"
    by (simp add: endswith_def)
  have d: "read_csv_ab (data_dir config_ingest @ [''b.csv'']) = Inr frame_b"
    by (simp add: read_csv_ab_def config_ingest_def)
  from ingest_db_last_file_wins [OF a b] a b c d show ?thesis by simp
qed

section \<open>Claims about \<open>CustomException\<close>\<close>

text \<open>
  C7. Constructing \<open>CustomException\<close> for a cause, while that cause is being handled (so
  that \<open>sys.exc_info()\<close> has its traceback, as at every call site), gives an exception
  whose \<open>__str__\<close> is exactly the message built from the file name, the line number and
  \<open>str(cause)\<close>, and never \<open>str(cause)\<close> alone; that message has been handed to
  \<open>logging.error\<close> (appended to the root logger's records) when the constructor returns;
  and the cause is kept unchanged in \<open>args\<close>.
\<close>

theorem CustomException_enriches:
  "CustomException_init str cause (Some tb) root_log =
     (Inr \<lparr>args = cause,
           error_message = ''Error occurred in python script - '' @ co_filename tb
             @ '', line number - '' @ str_nat (tb_lineno tb)
             @ '', error message - '' @ str cause\<rparr>,
      root_log @ [''Error occurred in python script - '' @ co_filename tb
             @ '', line number - '' @ str_nat (tb_lineno tb)
             @ '', error message - '' @ str cause])
   \<and> CustomException_str (\<lparr>args = cause,
           error_message = ''Error occurred in python script - '' @ co_filename tb
             @ '', line number - '' @ str_nat (tb_lineno tb)
             @ '', error message - '' @ str cause\<rparr>)
       = ''Error occurred in python script - '' @ co_filename tb
             @ '', line number - '' @ str_nat (tb_lineno tb)
             @ '', error message - '' @ str cause
   \<and> ''Error occurred in python script - '' @ co_filename tb
             @ '', line number - '' @ str_nat (tb_lineno tb)
             @ '', error message - '' @ str cause \<noteq> str cause"
  by (simp add: CustomException_init_def error_message_details_def CustomException_str_def Let_def)

section \<open>Claims about \<open>load_yaml\<close> and \<open>ConfigurationManager\<close>\<close>

text \<open>
  C8. The claim: \<open>load_yaml\<close> fails with \<open>ValueError\<close> on a document that is
  syntactically invalid. The code does not: whatever \<open>yaml.safe_load\<close> raises on the text
  is not a \<open>BoxValueError\<close>, so the first handler does not apply and the second re-raises
  the parser's \<open>YAMLError\<close> as it is.
\<close>

theorem load_yaml_syntax_error_not_ValueError:
  assumes "os_read m path = Inr text" and "safe_load text = Inl msg"
  shows "load_yaml safe_load m path = Inl (YAMLError msg)"
  using assms by (simp add: load_yaml_def)

theorem load_yaml_syntax_error_not_ValueError_witness:
  "os_read (root world_configs) [''configs'', ''broken.yaml''] = Inr text_broken
   \<and> safe_load_example text_broken
       = Inl ''while parsing a flow sequence: expected , or ] but got <stream end>''
   \<and> load_yaml safe_load_example (root world_configs) [''configs'', ''broken.yaml'']
       = Inl (YAMLError ''while parsing a flow sequence: expected , or ] but got <stream end>'')"
proof -
  have a: "os_read (root world_configs) [''configs'', ''broken.yaml''] = Inr text_broken"
    by (simp add: os_read_def world_configs_def)
  have b: "safe_load_example text_broken
       = Inl ''while parsing a flow sequence: expected , or ] but got <stream end>''"
    by (simp add: safe_load_example_def text_broken_def text_training_def)
  from load_yaml_syntax_error_not_ValueError [where safe_load = safe_load_example, OF a b] a b
  show ?thesis by simp
qed

text \<open>
  C6, as stated, fails. The training configuration of the example has the one key
  \<open>data_ingestion\<close> and no \<open>database\<close> section, so \<open>database.table_name\<close> is missing;
  \<open>load_yaml\<close> returns it all the same, and \<open>ConfigurationManager\<close> is constructed and
  creates \<open>artifacts/raw\<close>.
\<close>

theorem configuration_load_counterexample:
  "doc_training = YMap [(YStr ''data_ingestion'', YMap [(YStr ''raw_data_path'', YStr ''artifacts/raw'')])]
   \<and> getattr_path no_near_match doc_training [''database'', ''table_name'']
       = Inl (BoxKeyError ''ConfigBox object has no attribute database'')
   \<and> load_yaml safe_load_example (root world_configs) [''configs'', ''training-config.yaml'']
       = Inr doc_training
   \<and> ConfigurationManager_init no_near_match safe_load_example
         [''configs'', ''training-config.yaml''] world_configs
       = (Inr \<lparr>self_config_path = [''configs'', ''training-config.yaml''], self_config = doc_training\<rparr>,
          world_configs\<lparr>root := (root world_configs)(''artifacts'' \<mapsto> Dir [''raw'' \<mapsto> Dir Map.empty])\<rparr>)"
  by (simp add: config_eval_defs)

text \<open>
  C6, amended. Configuration load does not depend on \<open>database.table_name\<close>: a document
  that is a mapping is returned by \<open>load_yaml\<close>, with or without that key, and
  constructing \<open>ConfigurationManager\<close> from it, when \<open>data_ingestion.raw_data_path\<close> is a
  string that names a directory which can be created, creates that directory and
  succeeds. No call to the network is made by the construction.
\<close>

theorem configuration_load_ignores_table_name:
  assumes "os_read (root w) path = Inr text" and "safe_load text = Inr (YMap kvs)"
  shows "load_yaml safe_load (root w) path = Inr (YMap kvs)
    \<and> calls (snd (ConfigurationManager_init near safe_load path w)) = calls w
    \<and> (getattr_path near (YMap kvs) [''data_ingestion'', ''raw_data_path''] = Inr (YStr s)
        \<and> Path (YStr s) = Inr p \<and> ''..'' \<notin> set p
        \<and> mkdir True True p (root w) = (None, m) \<longrightarrow>
          ConfigurationManager_init near safe_load path w
            = (Inr \<lparr>self_config_path = path, self_config = YMap kvs\<rparr>, w\<lparr>root := m\<rparr>))"
proof -
  have l: "load_yaml safe_load (root w) path = Inr (YMap kvs)"
    using assms by (rule load_yaml_mapping)
  have c: "calls (snd (ConfigurationManager_init near safe_load path w)) = calls w"
    by (simp add: ConfigurationManager_init_def split: sum.splits prod.splits option.splits)
  have g: "getattr_path near (YMap kvs) [''data_ingestion'', ''raw_data_path''] = Inr (YStr s)
        \<and> Path (YStr s) = Inr p \<and> ''..'' \<notin> set p
        \<and> mkdir True True p (root w) = (None, m) \<longrightarrow>
          ConfigurationManager_init near safe_load path w
            = (Inr \<lparr>self_config_path = path, self_config = YMap kvs\<rparr>, w\<lparr>root := m\<rparr>)"
    using l by (auto simp: ConfigurationManager_init_def split: sum.splits option.splits)
  from l c g show ?thesis by blast
qed

theorem configuration_load_ignores_table_name_witness:
  "os_read (root world_configs) [''configs'', ''training-config.yaml''] = Inr text_training
   \<and> safe_load_example text_training = Inr doc_training
   \<and> getattr_path no_near_match doc_training [''database'', ''table_name'']
       = Inl (BoxKeyError ''ConfigBox object has no attribute database'')
   \<and> load_yaml safe_load_example (root world_configs) [''configs'', ''training-config.yaml'']
       = Inr doc_training
   \<and> getattr_path no_near_match doc_training [''data_ingestion'', ''raw_data_path'']
       = Inr (YStr ''artifacts/raw'')
   \<and> Path (YStr ''artifacts/raw'') = Inr [''artifacts'', ''raw'']
   \<and> ''..'' \<notin> set [''artifacts'', ''raw'']
   \<and> mkdir True True [''artifacts'', ''raw''] (root world_configs)
       = (None, (root world_configs)(''artifacts'' \<mapsto> Dir [''raw'' \<mapsto> Dir Map.empty]))
   \<and> ConfigurationManager_init no_near_match safe_load_example
         [''configs'', ''training-config.yaml''] world_configs
       = (Inr \<lparr>self_config_path = [''configs'', ''training-config.yaml''], self_config = doc_training\<rparr>,
          world_configs\<lparr>root := (root world_configs)(''artifacts'' \<mapsto> Dir [''raw'' \<mapsto> Dir Map.empty])\<rparr>)"
proof -
  have a: "os_read (root world_configs) [''configs'', ''training-config.yaml''] = Inr text_training"
    by (simp add: os_read_def world_configs_def)
  have b: "safe_load_example text_training
             = Inr (YMap [(YStr ''data_ingestion'', YMap [(YStr ''raw_data_path'', YStr ''artifacts/raw'')])])"
    by (simp add: safe_load_example_def doc_training_def)
  have c: "getattr_path no_near_match doc_training [''database'', ''table_name'']
       = Inl (BoxKeyError ''ConfigBox object has no attribute database'')"
    by (simp add: doc_training_def no_near_match_def)
  have d: "getattr_path no_near_match doc_training [''data_ingestion'', ''raw_data_path'']
       = Inr (YStr ''artifacts/raw'')"
    by (simp add: doc_training_def)
  have e: "Path (YStr ''artifacts/raw'') = Inr [''artifacts'', ''raw'']" by simp
  have f: "mkdir True True [''artifacts'', ''raw''] (root world_configs)
       = (None, (root world_configs)(''artifacts'' \<mapsto> Dir [''raw'' \<mapsto> Dir Map.empty]))"
    by (simp add: config_eval_defs)
  from configuration_load_ignores_table_name [where safe_load = safe_load_example, OF a b,
      where near = no_near_match and s = "''artifacts/raw''" and p = "[''artifacts'', ''raw'']"
        and m = "(root world_configs)(''artifacts'' \<mapsto> Dir [''raw'' \<mapsto> Dir Map.empty])"]
    a b c d e f
  show ?thesis by (simp add: doc_training_def)
qed

end
